theory Spec2Isabelle
  imports Complex_Main "HOL-Library.Word"
begin

section \<open>Data model\<close>

text \<open>
  The exceptions that leave \<^verbatim>\<open>MOLStreamHandler\<close>.  \<open>LogicError\<close> is the
  \<^verbatim>\<open>std::logic_error\<close> thrown for the V3000 tag, \<open>StdOutOfRange\<close> the
  \<^verbatim>\<open>std::out_of_range\<close> of \<^verbatim>\<open>std::string::substr\<close>.  \<open>UndefinedBehaviour\<close> marks
  an execution that leaves the defined part of C++ (a floating value converted to
  \<^verbatim>\<open>unsigned\<close> out of range, an iterator range whose begin lies behind its end).
  \<open>CollectionError\<close> stands for whatever \<^verbatim>\<open>BondOrderCollection::setOrder\<close> throws
  when it refuses a call; the reader catches nothing around that call.
\<close>

datatype error =
    FormatUnsupportedException
  | FormatMismatchException
  | LogicError string
  | StdOutOfRange
  | UndefinedBehaviour
  | CollectionError

text \<open>
  A \<^verbatim>\<open>double\<close> is modelled by the rational number it denotes (every finite double is
  one); comparisons and \<^verbatim>\<open>std::round\<close> are exact on doubles.  An arithmetic result
  is the exact result rounded to the nearest double, ties to the even significand
  (IEEE 754 binary64: 53 bits of significand, the unit in the last place at least
  \<open>2 ^ - 1074\<close>).  Not-a-number and the infinities are outside the model, so a result of
  magnitude \<open>2 ^ 1024\<close> or more, an infinity in C++, is not represented; negative zero
  is zero.
\<close>

text \<open>Rounding to the nearest integer, ties to even, of a nonnegative value.\<close>

definition round_half_even :: "rat \<Rightarrow> nat" where
  "round_half_even q =
     (let f = nat \<lfloor>q\<rfloor>; r = q - of_nat f
      in if r < 1 / 2 then f else if 1 / 2 < r then f + 1 else if even f then f else f + 1)"

text \<open>The position of the leading bit of a positive integer.\<close>

fun ilog2 :: "nat \<Rightarrow> nat" where
  "ilog2 n = (if n < 2 then 0 else Suc (ilog2 (n div 2)))"

declare ilog2.simps [simp del]

text \<open>The exponent \<open>e\<close> of the unit in the last place of the double nearest to a
  nonzero \<open>q\<close>: \<open>2 ^ 52 \<le> \<bar>q\<bar> / 2 ^ e < 2 ^ 53\<close>, and \<open>- 1074\<close> below the normal range.\<close>

definition ulp_exponent :: "rat \<Rightarrow> int" where
  "ulp_exponent q =
     (let a = \<bar>q\<bar>;
          L = (if 1 \<le> a then int (ilog2 (nat \<lfloor>a\<rfloor>))
               else - int (ilog2 (nat \<lceil>1 / a\<rceil> - 1)) - 1)
      in max (L - 52) (- 1074))"

definition round_to_double :: "rat \<Rightarrow> rat" where
  "round_to_double q =
     (if q = 0 then 0
      else
        let e = ulp_exponent q;
            m = round_half_even (if 0 \<le> e then \<bar>q\<bar> / 2 ^ nat e else \<bar>q\<bar> * 2 ^ nat (- e));
            v = (if 0 \<le> e then of_nat m * 2 ^ nat e else of_nat m / 2 ^ nat (- e))
        in if q < 0 then - v else v)"

text \<open>The product of two doubles.\<close>

definition double_times :: "rat \<Rightarrow> rat \<Rightarrow> rat" where
  "double_times x y = round_to_double (x * y)"

type_synonym Position = "rat \<times> rat \<times> rat"

text \<open>Modelled from the spec: the Atom Collection (\<^verbatim>\<open>AtomCollection.h\<close> is not part of
  the sources), an ordered sequence of atoms, each an element identity and a position
  in bohr.\<close>

record 'e Atom =
  element :: 'e
  position :: Position

type_synonym 'e AtomCollection = "'e Atom list"

text \<open>Modelled from the spec: the Bond-Order Collection (\<^verbatim>\<open>BondOrderCollection.h\<close> is
  not part of the sources), a symmetric mapping from an unordered pair of atom indices
  \<open>i \<noteq> j\<close>, \<open>i, j < systemSize\<close>, to a continuous bond order; the absence of an entry is
  order 0.  \<open>withOrder\<close> is the collection with one entry replaced.  What the member
  function \<^verbatim>\<open>setOrder\<close> does when it is called with other indices is said nowhere:
  it is a parameter of the reader (see \<open>env\<close> below).\<close>

record BondOrderCollection =
  systemSize :: nat
  orders :: "nat \<times> nat \<Rightarrow> rat"

definition emptyBondOrders :: BondOrderCollection where
  "emptyBondOrders = \<lparr>systemSize = 0, orders = (\<lambda>_. 0)\<rparr>"

definition resize :: "BondOrderCollection \<Rightarrow> nat \<Rightarrow> BondOrderCollection" where
  "resize b n = \<lparr>systemSize = n, orders = (\<lambda>_. 0)\<rparr>"

definition getOrder :: "BondOrderCollection \<Rightarrow> nat \<Rightarrow> nat \<Rightarrow> rat" where
  "getOrder b i j = orders b (min i j, max i j)"

definition withOrder :: "BondOrderCollection \<Rightarrow> nat \<Rightarrow> nat \<Rightarrow> rat \<Rightarrow> BondOrderCollection" where
  "withOrder b i j v = b\<lparr>orders := (orders b)((min i j, max i j) := v)\<rparr>"

text \<open>\<^verbatim>\<open>setOrder\<close> on the domain the spec gives the collection, refusing every other
  call.\<close>

definition setOrderInDomain ::
  "BondOrderCollection \<Rightarrow> nat \<Rightarrow> nat \<Rightarrow> rat \<Rightarrow> error + BondOrderCollection" where
  "setOrderInDomain b i j v =
     (if i \<noteq> j \<and> i < systemSize b \<and> j < systemSize b then Inr (withOrder b i j v)
      else Inl CollectionError)"

text \<open>The broken-down local time \<^verbatim>\<open>struct tm\<close>, as far as \<^verbatim>\<open>put_time\<close> reads it.\<close>

record tm =
  tm_min :: nat
  tm_hour :: nat
  tm_mday :: nat
  tm_mon :: nat
  tm_year :: nat

text \<open>
  What the codec takes from outside the translated file: the element tables behind
  \<^verbatim>\<open>ElementInfo::symbol\<close> and \<^verbatim>\<open>ElementInfo::elementTypeForSymbol\<close> (declared in
  \<^verbatim>\<open>ElementInfo.h\<close>, defined elsewhere; \<open>None\<close> is the throw of
  \<^verbatim>\<open>ElementSymbolNotFound\<close>), the element of a default-constructed atom, the two
  conversion factors of \<^verbatim>\<open>Constants.h\<close>, the clock, \<^verbatim>\<open>std::stod\<close> (\<open>None\<close> is
  the throw of \<^verbatim>\<open>std::invalid_argument\<close> or \<^verbatim>\<open>std::out_of_range\<close>), and
  \<^verbatim>\<open>BondOrderCollection::setOrder\<close> (\<open>Inl\<close> is a throw).
\<close>

record 'e env =
  symbol :: "'e \<Rightarrow> string"
  elementTypeForSymbol :: "string \<Rightarrow> 'e option"
  noneElement :: 'e
  angstrom_per_bohr :: rat
  bohr_per_angstrom :: rat
  localNow :: tm
  stod :: "string \<Rightarrow> rat option"
  setOrder :: "BondOrderCollection \<Rightarrow> nat \<Rightarrow> nat \<Rightarrow> rat \<Rightarrow> error + BondOrderCollection"

section \<open>Stream formatting\<close>

definition nl :: string where
  "nl = [CHR 0x0A]"

definition setw :: "nat \<Rightarrow> string \<Rightarrow> string" where
  "setw n s = replicate (n - length s) CHR '' '' @ s"

definition digit_char :: "nat \<Rightarrow> char" where
  "digit_char d = ''0123456789'' ! d"

fun show_nat :: "nat \<Rightarrow> string" where
  "show_nat n = (if n < 10 then [digit_char n] else show_nat (n div 10) @ [digit_char (n mod 10)])"

declare show_nat.simps [simp del]

definition zero_pad :: "nat \<Rightarrow> string \<Rightarrow> string" where
  "zero_pad n s = replicate (n - length s) CHR ''0'' @ s"

text \<open>\<^verbatim>\<open>std::put_time(&localNow, "%m%d%y%H%M")\<close>\<close>

definition put_time :: "tm \<Rightarrow> string" where
  "put_time t =
     zero_pad 2 (show_nat (tm_mon t + 1)) @ zero_pad 2 (show_nat (tm_mday t)) @
     zero_pad 2 (show_nat (tm_year t mod 100)) @ zero_pad 2 (show_nat (tm_hour t)) @
     zero_pad 2 (show_nat (tm_min t))"

text \<open>\<^verbatim>\<open>os << std::setprecision(4) << std::fixed << x\<close>, before the padding of
  \<^verbatim>\<open>setw\<close>: the decimal conversion rounds the exact value of the double, ties to
  even.\<close>

definition fixed4 :: "rat \<Rightarrow> string" where
  "fixed4 q =
     (let m = round_half_even (\<bar>q\<bar> * 10000)
      in (if q < 0 then ''-'' else '''') @ show_nat (m div 10000) @ ''.'' @
         zero_pad 4 (show_nat (m mod 10000)))"

text \<open>\<^verbatim>\<open>std::round\<close>: to the nearest integer, ties away from zero.\<close>

definition c_round :: "rat \<Rightarrow> int" where
  "c_round x = (if 0 \<le> x then \<lfloor>x + 1 / 2\<rfloor> else - \<lfloor>- x + 1 / 2\<rfloor>)"

text \<open>The conversion of an integral \<^verbatim>\<open>double\<close> to \<^verbatim>\<open>unsigned\<close>: undefined when the
  value is not representable.\<close>

definition double_to_unsigned :: "int \<Rightarrow> nat option" where
  "double_to_unsigned r = (if 0 \<le> r \<and> r < 2 ^ 32 then Some (nat r) else None)"

section \<open>The writer\<close>

text \<open>The index pairs visited by
  \<^verbatim>\<open>for (unsigned i = 0; i < N - 1; ++i) for (unsigned j = i + 1; j < N; ++j)\<close>,
  in order; \<^verbatim>\<open>N - 1\<close> is an unsigned subtraction.\<close>

definition loopPairs :: "nat \<Rightarrow> (nat \<times> nat) list" where
  "loopPairs N =
     concat (map (\<lambda>i. map (\<lambda>j. (i, j)) [i + 1..<N]) [0..<unat (word_of_nat N - 1 :: 32 word)])"

definition increment :: "nat list \<Rightarrow> nat \<Rightarrow> nat list" where
  "increment valences i = valences[i := valences ! i + 1]"

definition countValences :: "BondOrderCollection \<Rightarrow> (nat \<times> nat) list \<Rightarrow> nat list \<Rightarrow> nat list" where
  "countValences bondOrders ps valences0 =
     fold (\<lambda>(i, j) valences.
             let order = getOrder bondOrders i j
             in if 1 / 2 \<le> order \<and> order < 7 / 2
                then increment (increment valences i) j
                else valences) ps valences0"

definition countsLine :: "nat \<Rightarrow> nat \<Rightarrow> string \<Rightarrow> string" where
  "countsLine N B formatVersion =
     setw 3 (show_nat N) @ setw 3 (show_nat B) @ setw 3 (show_nat 0) @ setw 3 (show_nat 0) @
     setw 3 (show_nat 0) @ setw 3 (show_nat 0) @ setw 3 (show_nat 0) @ setw 3 (show_nat 0) @
     setw 3 (show_nat 0) @ setw 3 (show_nat 0) @ setw 3 (show_nat 999) @ setw 6 formatVersion @ nl"

definition atomLine :: "'e env \<Rightarrow> 'e Atom \<Rightarrow> nat \<Rightarrow> string" where
  "atomLine env a valence =
     (case position a of (x, y, z) \<Rightarrow>
        setw 10 (fixed4 (double_times x (angstrom_per_bohr env))) @
        setw 10 (fixed4 (double_times y (angstrom_per_bohr env))) @
        setw 10 (fixed4 (double_times z (angstrom_per_bohr env))) @
        '' '' @ setw 3 (symbol env (element a)) @
        setw 2 (show_nat 0) @ setw 3 (show_nat 0) @ setw 3 (show_nat 0) @ setw 3 (show_nat 0) @
        setw 3 (show_nat 0) @ setw 3 (show_nat valence) @ setw 3 (show_nat 0) @
        setw 3 (show_nat 0) @ setw 3 (show_nat 0) @ setw 3 (show_nat 0) @ setw 3 (show_nat 0) @
        setw 3 (show_nat 0) @ nl)"

definition bondLine :: "nat \<Rightarrow> nat \<Rightarrow> nat \<Rightarrow> string" where
  "bondLine i j bondOrder =
     setw 3 (show_nat (1 + i)) @ setw 3 (show_nat (1 + j)) @ setw 3 (show_nat bondOrder) @
     setw 3 (show_nat 0) @ setw 3 (show_nat 0) @ setw 3 (show_nat 0) @ setw 3 (show_nat 0) @ nl"

fun bondBlock :: "BondOrderCollection \<Rightarrow> (nat \<times> nat) list \<Rightarrow> error + string" where
  "bondBlock bondOrders [] = Inr []"
| "bondBlock bondOrders ((i, j) # ps) =
     (case double_to_unsigned (c_round (getOrder bondOrders i j)) of
        None \<Rightarrow> Inl UndefinedBehaviour
      | Some bondOrder \<Rightarrow>
          (case bondBlock bondOrders ps of
             Inl e \<Rightarrow> Inl e
           | Inr rest \<Rightarrow>
               Inr ((if 0 < bondOrder \<and> bondOrder < 4 then bondLine i j bondOrder else []) @ rest)))"

definition headerLines :: "'e env \<Rightarrow> string" where
  "headerLines env =
     ''Unnamed Molecule'' @ nl @
     setw 2 ''##'' @ setw 8 ''SCINE'' @ put_time (localNow env) @ ''3D'' @ nl @
     nl"

definition writeValences :: "nat \<Rightarrow> BondOrderCollection option \<Rightarrow> nat list" where
  "writeValences N bondOrdersOption =
     (case bondOrdersOption of
        None \<Rightarrow> replicate N 0
      | Some bondOrders \<Rightarrow> countValences bondOrders (loopPairs N) (replicate N 0))"

text \<open>\<^verbatim>\<open>std::accumulate\<close> over \<^verbatim>\<open>unsigned\<close>, halved.\<close>

definition bondCount :: "nat list \<Rightarrow> nat" where
  "bondCount valences = (sum_list valences mod 2 ^ 32) div 2"

definition atomBlock :: "'e env \<Rightarrow> 'e AtomCollection \<Rightarrow> nat list \<Rightarrow> string" where
  "atomBlock env atoms valences =
     concat (map (\<lambda>i. atomLine env (atoms ! i) (valences ! i)) [0..<length atoms])"

definition write_mol ::
  "'e env \<Rightarrow> 'e AtomCollection \<Rightarrow> BondOrderCollection option \<Rightarrow> string \<Rightarrow> error + string" where
  "write_mol env atoms bondOrdersOption formatVersion =
     (let N = length atoms;
          valences = writeValences N bondOrdersOption;
          B = bondCount valences
      in case (case bondOrdersOption of
                 None \<Rightarrow> Inr []
               | Some bondOrders \<Rightarrow> bondBlock bondOrders (loopPairs N)) of
           Inl e \<Rightarrow> Inl e
         | Inr bonds \<Rightarrow>
             Inr (headerLines env @ countsLine N B formatVersion @ atomBlock env atoms valences @
                  bonds @ ''M END''))"

section \<open>Input streams\<close>

record istream =
  buf :: string
  eofbit :: bool
  failbit :: bool

definition good :: "istream \<Rightarrow> bool" where
  "good inp = (\<not> eofbit inp \<and> \<not> failbit inp)"

definition open_stream :: "string \<Rightarrow> istream" where
  "open_stream str = \<lparr>buf = str, eofbit = False, failbit = False\<rparr>"

definition newline :: char where
  "newline = CHR 0x0A"

definition skipLine :: "istream \<Rightarrow> istream" where
  "skipLine inp =
     (if \<not> good inp then inp\<lparr>failbit := True\<rparr>
      else if newline \<in> set (buf inp)
           then inp\<lparr>buf := tl (dropWhile (\<lambda>c. c \<noteq> newline) (buf inp))\<rparr>
           else inp\<lparr>buf := [], eofbit := True\<rparr>)"

definition getline :: "istream \<Rightarrow> string \<Rightarrow> istream \<times> string" where
  "getline inp line =
     (if \<not> good inp then (inp\<lparr>failbit := True\<rparr>, line)
      else if newline \<in> set (buf inp)
           then (inp\<lparr>buf := tl (dropWhile (\<lambda>c. c \<noteq> newline) (buf inp))\<rparr>,
                 takeWhile (\<lambda>c. c \<noteq> newline) (buf inp))
           else (inp\<lparr>buf := [], eofbit := True, failbit := (buf inp = [])\<rparr>, buf inp))"

definition substr :: "string \<Rightarrow> nat \<Rightarrow> nat \<Rightarrow> string" where
  "substr s pos n = take n (drop pos s)"

definition isspace :: "char \<Rightarrow> bool" where
  "isspace c = (c \<in> set [CHR '' '', CHR 0x09, CHR 0x0A, CHR 0x0B, CHR 0x0C, CHR 0x0D])"

definition isdigit :: "char \<Rightarrow> bool" where
  "isdigit c = (48 \<le> (of_char c :: nat) \<and> (of_char c :: nat) \<le> 57)"

definition digits_value :: "string \<Rightarrow> nat" where
  "digits_value ds = foldl (\<lambda>v c. 10 * v + ((of_char c :: nat) - 48)) 0 ds"

definition stoul :: "string \<Rightarrow> (nat \<times> nat) option" where
  "stoul str =
     (let ws = takeWhile isspace str;
          r = dropWhile isspace str;
          neg = (r \<noteq> [] \<and> hd r = CHR ''-'');
          sign = (if r \<noteq> [] \<and> (hd r = CHR ''-'' \<or> hd r = CHR ''+'') then 1 else 0);
          ds = takeWhile isdigit (drop sign r);
          v = digits_value ds
      in if ds = [] then None
         else if 2 ^ 64 \<le> v then None
         else Some (if neg then (2 ^ 64 - v) mod 2 ^ 64 else v, length ws + sign + length ds))"

definition toupper :: "char \<Rightarrow> char" where
  "toupper c =
     (case map_of (zip ''abcdefghijklmnopqrstuvwxyz'' ''ABCDEFGHIJKLMNOPQRSTUVWXYZ'') c of
        Some u \<Rightarrow> u | None \<Rightarrow> c)"

definition tolower :: "char \<Rightarrow> char" where
  "tolower c =
     (case map_of (zip ''ABCDEFGHIJKLMNOPQRSTUVWXYZ'' ''abcdefghijklmnopqrstuvwxyz'') c of
        Some l \<Rightarrow> l | None \<Rightarrow> c)"

definition removeAllSpaces :: "string \<Rightarrow> string" where
  "removeAllSpaces a = filter (\<lambda>c. c \<noteq> CHR '' '') a"

text \<open>The two \<^verbatim>\<open>std::transform\<close> calls on the element string.  On the empty string
  the second range starts behind its end.\<close>

definition capitalize :: "string \<Rightarrow> string option" where
  "capitalize elementStr =
     (case elementStr of [] \<Rightarrow> None | c # cs \<Rightarrow> Some (toupper c # map tolower cs))"

section \<open>The reader\<close>

text \<open>The value a line gives to \<^verbatim>\<open>atomBlockSize\<close> and \<^verbatim>\<open>bondBlockSize\<close> when it passes
  the three checks of the scan: at least 38 characters, and both leading 3-character
  fields converted by \<^verbatim>\<open>std::stoul\<close> with exactly 3 characters consumed.\<close>

definition countsLineChecks :: "string \<Rightarrow> (32 word \<times> 32 word) option" where
  "countsLineChecks line =
     (if length line < 38 then None
      else case stoul (substr line 0 3) of
             None \<Rightarrow> None
           | Some (v, convertedChars) \<Rightarrow>
               if convertedChars \<noteq> 3 then None
               else case stoul (substr line 3 3) of
                      None \<Rightarrow> None
                    | Some (v', convertedChars') \<Rightarrow>
                        if convertedChars' \<noteq> 3 then None
                        else Some (word_of_nat v, word_of_nat v'))"

function countsLoop ::
  "istream \<Rightarrow> string \<Rightarrow> 32 word \<Rightarrow> 32 word \<Rightarrow> istream \<times> string \<times> 32 word \<times> 32 word" where
  "countsLoop inp line atomBlockSize bondBlockSize =
     (case getline inp line of (inp', line') \<Rightarrow>
        if failbit inp' then (inp', line', atomBlockSize, bondBlockSize)
        else if length line' < 38 then countsLoop inp' line' atomBlockSize bondBlockSize
        else case stoul (substr line' 0 3) of
               None \<Rightarrow> countsLoop inp' line' atomBlockSize bondBlockSize
             | Some (v, convertedChars) \<Rightarrow>
                 if convertedChars \<noteq> 3 then countsLoop inp' line' 0 bondBlockSize
                 else case stoul (substr line' 3 3) of
                        None \<Rightarrow> countsLoop inp' line' (word_of_nat v) bondBlockSize
                      | Some (v', convertedChars') \<Rightarrow>
                          if convertedChars' \<noteq> 3 then countsLoop inp' line' (word_of_nat v) 0
                          else (inp', line', word_of_nat v, word_of_nat v'))"
  by pat_completeness auto
termination
proof -
  have d: "c \<in> set xs \<Longrightarrow> length (dropWhile (\<lambda>x. x \<noteq> c) xs) - Suc 0 < length xs"
    for c :: char and xs
    by (induction xs) auto
  have g: "length (buf inp') < length (buf inp)"
    if "getline inp line = (inp', line')" and "\<not> failbit inp'" for inp line inp' line'
    using that by (auto simp: getline_def d split: if_splits)
  show ?thesis
    by (relation "measure (\<lambda>(inp, line, a, b). length (buf inp))") (auto dest: g [OF sym])
qed

declare countsLoop.simps [simp del]

definition scanCounts :: "istream \<Rightarrow> error + (istream \<times> string \<times> 32 word \<times> 32 word)" where
  "scanCounts inp =
     (case countsLoop inp [] 0 0 of (inp', line, atomBlockSize, bondBlockSize) \<Rightarrow>
        if eofbit inp' then Inl FormatMismatchException
        else Inr (inp', line, atomBlockSize, bondBlockSize))"

text \<open>The body of the atom loop, on the line just read.\<close>

definition parseAtomLine :: "'e env \<Rightarrow> string \<Rightarrow> error + 'e Atom" where
  "parseAtomLine env line =
     (if length line < 34 then Inl FormatMismatchException
      else case (stod env (substr line 0 10), stod env (substr line 10 10),
                 stod env (substr line 20 10)) of
             (Some x, Some y, Some z) \<Rightarrow>
               (case capitalize (removeAllSpaces (substr line 31 3)) of
                  None \<Rightarrow> Inl UndefinedBehaviour
                | Some elementStr \<Rightarrow>
                    (case elementTypeForSymbol env elementStr of
                       None \<Rightarrow> Inl FormatMismatchException
                     | Some f \<Rightarrow>
                         Inr \<lparr>element = f,
                              position = (double_times x (bohr_per_angstrom env),
                                          double_times y (bohr_per_angstrom env),
                                          double_times z (bohr_per_angstrom env))\<rparr>))
           | _ \<Rightarrow> Inl FormatMismatchException)"

text \<open>The atom block: \<open>n\<close> iterations are left, \<open>i\<close> is the loop index.  The result of
  \<^verbatim>\<open>std::getline\<close> is not tested.\<close>

fun atomLoop ::
  "'e env \<Rightarrow> nat \<Rightarrow> nat \<Rightarrow> istream \<Rightarrow> string \<Rightarrow> 'e AtomCollection \<Rightarrow>
   error + (istream \<times> string \<times> 'e AtomCollection)" where
  "atomLoop env 0 i inp line atoms = Inr (inp, line, atoms)"
| "atomLoop env (Suc n) i inp line atoms =
     (case getline inp line of (inp', line') \<Rightarrow>
        (case parseAtomLine env line' of
           Inl e \<Rightarrow> Inl e
         | Inr a \<Rightarrow> atomLoop env n (i + 1) inp' line' (atoms[i := a])))"

text \<open>The body of the bond loop: the two atom indices, already 0-based by an unsigned
  subtraction, and the bond type.\<close>

definition parseBondLine :: "string \<Rightarrow> error + (32 word \<times> 32 word \<times> 32 word)" where
  "parseBondLine line =
     (if length line < 9 then Inl FormatMismatchException
      else case stoul (substr line 0 3) of
             None \<Rightarrow> Inl FormatMismatchException
           | Some (va, convertedA) \<Rightarrow>
      if convertedA \<noteq> 3 then Inl FormatMismatchException
      else case stoul (substr line 3 3) of
             None \<Rightarrow> Inl FormatMismatchException
           | Some (vb, convertedB) \<Rightarrow>
      if convertedB \<noteq> 3 then Inl FormatMismatchException
      else case stoul (substr line 6 3) of
             None \<Rightarrow> Inl FormatMismatchException
           | Some (vs, convertedS) \<Rightarrow>
      if convertedS \<noteq> 3 then Inl FormatMismatchException
      else Inr (word_of_nat va - 1, word_of_nat vb - 1, word_of_nat vs))"

text \<open>What the bond loop does to the collection for one parsed line.\<close>

definition recordBond ::
  "'e env \<Rightarrow> BondOrderCollection \<Rightarrow> 32 word \<times> 32 word \<times> 32 word \<Rightarrow>
   error + BondOrderCollection" where
  "recordBond env bondOrders t =
     (case t of (a, b, molBondSpecifier) \<Rightarrow>
        if 0 < molBondSpecifier \<and> molBondSpecifier < 4
        then setOrder env bondOrders (unat a) (unat b) (of_nat (unat molBondSpecifier))
        else Inr bondOrders)"

text \<open>The bond block, \<open>n\<close> iterations left.\<close>

fun bondLoop ::
  "'e env \<Rightarrow> nat \<Rightarrow> istream \<Rightarrow> string \<Rightarrow> BondOrderCollection \<Rightarrow>
   error + (istream \<times> string \<times> BondOrderCollection)" where
  "bondLoop env 0 inp line bondOrders = Inr (inp, line, bondOrders)"
| "bondLoop env (Suc n) inp line bondOrders =
     (case getline inp line of (inp', line') \<Rightarrow>
        (case parseBondLine line' of
           Inl e \<Rightarrow> Inl e
         | Inr t \<Rightarrow>
             (case recordBond env bondOrders t of
                Inl e \<Rightarrow> Inl e
              | Inr bondOrders' \<Rightarrow> bondLoop env n inp' line' bondOrders')))"

text \<open>What the bond loop does to the collection for a list of parsed lines, in order; it
  stops at the first call of \<^verbatim>\<open>setOrder\<close> that throws.\<close>

fun recordBonds ::
  "'e env \<Rightarrow> BondOrderCollection \<Rightarrow> (32 word \<times> 32 word \<times> 32 word) list \<Rightarrow>
   error + BondOrderCollection" where
  "recordBonds env bondOrders [] = Inr bondOrders"
| "recordBonds env bondOrders (t # ts) =
     (case recordBond env bondOrders t of
        Inl e \<Rightarrow> Inl e
      | Inr bondOrders' \<Rightarrow> recordBonds env bondOrders' ts)"

text \<open>The reader behind the scan: the version tag, the atom block and the bond block,
  on the stream as the scan leaves it, \<open>line\<close> being the counts line.\<close>

definition readBlocks ::
  "'e env \<Rightarrow> istream \<Rightarrow> string \<Rightarrow> 32 word \<Rightarrow> 32 word \<Rightarrow>
   error + ('e AtomCollection \<times> BondOrderCollection)" where
  "readBlocks env inp line atomBlockSize bondBlockSize =
     (if length line < 33 then Inl StdOutOfRange
      else
        let versionString = removeAllSpaces (drop 33 line)
        in if versionString = ''V3000''
           then Inl (LogicError ''V3000 MOL Format not implemented!'')
           else
             let atoms0 = replicate (unat atomBlockSize)
                            \<lparr>element = noneElement env, position = (0, 0, 0)\<rparr>
             in case (if versionString = ''V2000''
                      then atomLoop env (unat atomBlockSize) 0 inp line atoms0
                      else Inr (inp, line, atoms0)) of
                  Inl e \<Rightarrow> Inl e
                | Inr (inp1, line1, atoms) \<Rightarrow>
                    (case (if 0 < bondBlockSize
                           then bondLoop env (unat bondBlockSize) inp1 line1
                                  (resize emptyBondOrders (unat atomBlockSize))
                           else Inr (inp1, line1, emptyBondOrders)) of
                       Inl e \<Rightarrow> Inl e
                     | Inr (inp2, line2, bondOrders) \<Rightarrow> Inr (atoms, bondOrders)))"

definition read ::
  "'e env \<Rightarrow> istream \<Rightarrow> error + ('e AtomCollection \<times> BondOrderCollection)" where
  "read env inp0 =
     (case scanCounts (skipLine (skipLine (skipLine inp0))) of
        Inl e \<Rightarrow> Inl e
      | Inr (inp, line, atomBlockSize, bondBlockSize) \<Rightarrow>
          readBlocks env inp line atomBlockSize bondBlockSize)"

text \<open>The entry points that take the format name.\<close>

definition read_format ::
  "'e env \<Rightarrow> istream \<Rightarrow> string \<Rightarrow> error + ('e AtomCollection \<times> BondOrderCollection)" where
  "read_format env inp format =
     (if format \<noteq> ''mol'' then Inl FormatUnsupportedException else read env inp)"

definition write_format ::
  "'e env \<Rightarrow> string \<Rightarrow> 'e AtomCollection \<Rightarrow> BondOrderCollection option \<Rightarrow> error + string" where
  "write_format env format atoms bondOrdersOption =
     (if format \<noteq> ''mol'' then Inl FormatUnsupportedException
      else write_mol env atoms bondOrdersOption ''V2000'')"

section \<open>A concrete environment\<close>

text \<open>
  The number a prefix of a string denotes, as \<^verbatim>\<open>strtod\<close> reads it in the C locale:
  blanks, a sign, then either \<^verbatim>\<open>0x\<close> with hexadecimal digits around an optional
  point and an optional binary exponent, or decimal digits around an optional point
  and an optional decimal exponent; an exponent letter that no digit follows is not
  part of the number.  \<open>None\<close> when no number starts the string.  The spellings of
  infinity and not-a-number, which \<^verbatim>\<open>strtod\<close> accepts, denote no rational: they give
  \<open>None\<close> here.
\<close>

definition isxdigit :: "char \<Rightarrow> bool" where
  "isxdigit c = (c \<in> set ''0123456789abcdefABCDEF'')"

definition xdigit_value :: "char \<Rightarrow> nat" where
  "xdigit_value c =
     (case map_of (zip ''0123456789abcdefABCDEF''
                       [0, 1, 2, 3, 4, 5, 6, 7, 8, 9, 10, 11, 12, 13, 14, 15, 10, 11, 12, 13, 14, 15]) c of
        Some v \<Rightarrow> v | None \<Rightarrow> 0)"

definition xdigits_value :: "string \<Rightarrow> nat" where
  "xdigits_value ds = foldl (\<lambda>v c. 16 * v + xdigit_value c) 0 ds"

definition exponent_part :: "string \<Rightarrow> string \<Rightarrow> int" where
  "exponent_part letters r =
     (if r \<noteq> [] \<and> hd r \<in> set letters
      then let t = tl r;
               neg = (t \<noteq> [] \<and> hd t = CHR ''-'');
               sign = (if t \<noteq> [] \<and> (hd t = CHR ''-'' \<or> hd t = CHR ''+'') then 1 else 0);
               ds = takeWhile isdigit (drop sign t)
           in if ds = [] then 0
              else if neg then - int (digits_value ds) else int (digits_value ds)
      else 0)"

definition scale :: "rat \<Rightarrow> rat \<Rightarrow> int \<Rightarrow> rat" where
  "scale v b e = (if 0 \<le> e then v * b ^ nat e else v / b ^ nat (- e))"

definition parsed_value :: "string \<Rightarrow> rat option" where
  "parsed_value str =
     (let r = dropWhile isspace str;
          neg = (r \<noteq> [] \<and> hd r = CHR ''-'');
          sign = (if r \<noteq> [] \<and> (hd r = CHR ''-'' \<or> hd r = CHR ''+'') then 1 else 0);
          r1 = drop sign r;
          hr = dropWhile isxdigit (drop 2 r1);
          hip = takeWhile isxdigit (drop 2 r1);
          hfp = (if hr \<noteq> [] \<and> hd hr = CHR ''.'' then takeWhile isxdigit (tl hr) else []);
          hr' = (if hr \<noteq> [] \<and> hd hr = CHR ''.'' then dropWhile isxdigit (tl hr) else hr);
          hex = ((take 2 r1 = ''0x'' \<or> take 2 r1 = ''0X'') \<and> (hip \<noteq> [] \<or> hfp \<noteq> []));
          dr = dropWhile isdigit r1;
          ip = takeWhile isdigit r1;
          fp = (if dr \<noteq> [] \<and> hd dr = CHR ''.'' then takeWhile isdigit (tl dr) else []);
          dr' = (if dr \<noteq> [] \<and> hd dr = CHR ''.'' then dropWhile isdigit (tl dr) else dr);
          v = (if hex
               then scale (of_nat (xdigits_value hip) + of_nat (xdigits_value hfp) / 16 ^ length hfp)
                      2 (exponent_part ''pP'' hr')
               else scale (of_nat (digits_value ip) + of_nat (digits_value fp) / 10 ^ length fp)
                      10 (exponent_part ''eE'' dr'))
      in if \<not> hex \<and> ip = [] \<and> fp = [] then None else Some (if neg then - v else v))"

text \<open>
  \<^verbatim>\<open>std::stod\<close>: the double nearest to the number read; \<open>None\<close> is the throw of
  \<^verbatim>\<open>std::invalid_argument\<close> when there is no number and of \<^verbatim>\<open>std::out_of_range\<close>
  when \<^verbatim>\<open>strtod\<close> reports a range error: the result overflows, or it is below the
  normal range and not exact.
\<close>

definition stod_double :: "string \<Rightarrow> rat option" where
  "stod_double str =
     (case parsed_value str of
        None \<Rightarrow> None
      | Some v \<Rightarrow>
          if 2 ^ 1024 \<le> \<bar>round_to_double v\<bar> then None
          else if \<bar>v\<bar> < 1 / 2 ^ 1022 \<and> round_to_double v \<noteq> v then None
          else Some (round_to_double v))"

text \<open>
  An environment to run the model on: elements are named by their symbols, four of
  them known; the factors are the doubles nearest to 0.52917721067 (CODATA 2014) and
  to its inverse; \<^verbatim>\<open>setOrder\<close> refuses a call outside the domain of the collection.
\<close>

definition sampleEnv :: "string env" where
  "sampleEnv =
     \<lparr>symbol = (\<lambda>e. e),
      elementTypeForSymbol = (\<lambda>s. if s \<in> set [''H'', ''C'', ''N'', ''O''] then Some s else None),
      noneElement = ''none'',
      angstrom_per_bohr = 4766404577572741 / 9007199254740992,
      bohr_per_angstrom = 4255284937222083 / 2251799813685248,
      localNow = \<lparr>tm_min = 30, tm_hour = 12, tm_mday = 24, tm_mon = 11, tm_year = 119\<rparr>,
      stod = stod_double,
      setOrder = setOrderInDomain\<rparr>"

text \<open>A molecule to run the model on; the bond orders are 3.49999, 0.5 and 0.49999,
  as doubles.\<close>

definition sampleAtoms :: "string AtomCollection" where
  "sampleAtoms =
     [\<lparr>element = ''C'', position = (0, 0, 0)\<rparr>,
      \<lparr>element = ''O'', position = (2, 0, 0)\<rparr>,
      \<lparr>element = ''H'', position = (- 1, 3 / 2, 0)\<rparr>]"

definition sampleBonds :: BondOrderCollection where
  "sampleBonds =
     withOrder
       (withOrder
          (withOrder (resize emptyBondOrders 3) 0 1 (7881276829900231 / 2251799813685248))
          0 2 (1 / 2))
       1 2 (9007019110755897 / 18014398509481984)"

text \<open>Two atoms with order 3.5 between them.\<close>

definition twoAtoms :: "string AtomCollection" where
  "twoAtoms =
     [\<lparr>element = ''C'', position = (0, 0, 0)\<rparr>, \<lparr>element = ''O'', position = (2, 0, 0)\<rparr>]"

definition borderBonds :: BondOrderCollection where
  "borderBonds = withOrder (resize emptyBondOrders 2) 0 1 (7 / 2)"

text \<open>Order 1 between all atoms, and the bond lines of one bond type for a list of
  pairs.\<close>

definition unitBonds :: "nat \<Rightarrow> BondOrderCollection" where
  "unitBonds n = \<lparr>systemSize = n, orders = (\<lambda>_. 1)\<rparr>"

definition bondLinesOf :: "(nat \<times> nat) list \<Rightarrow> nat \<Rightarrow> string" where
  "bondLinesOf ps r = concat (map (\<lambda>(i, j). bondLine i j r) ps)"


section \<open>Properties of the writer\<close>

lemma concat_map_Nil: "concat (map (\<lambda>_. []) xs) = []"
  by (induction xs) simp_all

lemma loopPairs_0: "loopPairs 0 = []"
  by (simp add: loopPairs_def concat_map_Nil)

lemma show_nat_0: "show_nat 0 = ''0''"
  by (simp add: show_nat.simps digit_char_def)

lemma show_nat_999: "show_nat 999 = ''999''"
  by (simp add: show_nat.simps digit_char_def)

lemma setw_3_0: "setw 3 ''0'' = ''  0''"
  by (simp add: setw_def numeral_2_eq_2)

lemma setw_3_999: "setw 3 ''999'' = ''999''"
  by (simp add: setw_def)

lemma unat_pred: "0 < N \<Longrightarrow> N < 2 ^ 32 \<Longrightarrow> unat (word_of_nat N - 1 :: 32 word) = N - 1"
proof -
  assume a: "0 < N" "N < 2 ^ 32"
  have u: "unat (word_of_nat N :: 32 word) = N" using a by (simp add: unat_of_nat)
  have "word_of_nat N \<noteq> (0 :: 32 word)"
  proof
    assume "word_of_nat N = (0 :: 32 word)"
    then have "unat (word_of_nat N :: 32 word) = 0" by simp
    with u a show False by simp
  qed
  then have "unat (word_of_nat N - 1 :: 32 word) = unat (word_of_nat N :: 32 word) - 1"
    by (rule unat_minus_one)
  with u show ?thesis by simp
qed

lemma c_round_123: "c_round x \<in> {1, 2, 3} \<longleftrightarrow> 1 / 2 \<le> x \<and> x < 7 / 2"
proof (cases "0 \<le> x")
  case True
  have "n \<in> {1, 2, 3} \<longleftrightarrow> 1 \<le> n \<and> n < 4" for n :: int by auto
  then have "\<lfloor>x + 1 / 2\<rfloor> \<in> {1, 2, 3} \<longleftrightarrow> 1 \<le> \<lfloor>x + 1 / 2\<rfloor> \<and> \<lfloor>x + 1 / 2\<rfloor> < 4" .
  also have "\<dots> \<longleftrightarrow> 1 \<le> x + 1 / 2 \<and> x + 1 / 2 < 4" by (simp add: le_floor_iff floor_less_iff)
  also have "\<dots> \<longleftrightarrow> 1 / 2 \<le> x \<and> x < 7 / 2" by auto
  finally show ?thesis using True by (simp add: c_round_def)
next
  case False
  then have "0 \<le> \<lfloor>- x + 1 / 2\<rfloor>" by (simp add: le_floor_iff)
  then have "c_round x \<le> 0" using False by (simp add: c_round_def)
  then show ?thesis using False by auto
qed

lemma c_round_nonneg: "0 \<le> c_round x \<longleftrightarrow> - (1 / 2) < x"
proof (cases "0 \<le> x")
  case True
  then have "0 \<le> \<lfloor>x + 1 / 2\<rfloor>" by (simp add: le_floor_iff)
  then show ?thesis using True by (simp add: c_round_def)
next
  case False
  have "\<lfloor>- x + 1 / 2\<rfloor> \<le> 0 \<longleftrightarrow> - x + 1 / 2 < 1" by (simp add: floor_le_iff)
  also have "\<dots> \<longleftrightarrow> - (1 / 2) < x" by auto
  finally show ?thesis using False by (simp add: c_round_def)
qed

lemma c_round_less: "c_round x < 2 ^ 32 \<longleftrightarrow> x < 2 ^ 32 - 1 / 2"
proof (cases "0 \<le> x")
  case True
  have "\<lfloor>x + 1 / 2\<rfloor> < 2 ^ 32 \<longleftrightarrow> x + 1 / 2 < of_int (2 ^ 32)" by (rule floor_less_iff)
  also have "\<dots> \<longleftrightarrow> x < 2 ^ 32 - 1 / 2" by auto
  finally show ?thesis using True by (simp add: c_round_def)
next
  case False
  then have "0 \<le> \<lfloor>- x + 1 / 2\<rfloor>" by (simp add: le_floor_iff)
  then have "c_round x \<le> 0" using False by (simp add: c_round_def)
  then show ?thesis using False by auto
qed

lemma loopPairs_pos: "0 < N \<Longrightarrow> N < 2 ^ 32 \<Longrightarrow>
  loopPairs N = concat (map (\<lambda>i. map (\<lambda>j. (i, j)) [i + 1..<N]) [0..<N - 1])"
  by (simp add: loopPairs_def unat_pred)

lemma set_loopPairs: "N < 2 ^ 32 \<Longrightarrow> set (loopPairs N) = {(i, j). i < j \<and> j < N}"
proof (cases "N = 0")
  case True then show ?thesis by (simp add: loopPairs_0)
next
  case False
  assume "N < 2 ^ 32"
  with False have e: "loopPairs N = concat (map (\<lambda>i. map (\<lambda>j. (i, j)) [i + 1..<N]) [0..<N - 1])"
    by (simp add: loopPairs_pos)
  show ?thesis
  proof (rule set_eqI, clarify)
    fix a b
    show "(a, b) \<in> set (loopPairs N) \<longleftrightarrow> (a, b) \<in> {(i, j). i < j \<and> j < N}"
      unfolding e by (auto intro!: bexI [of _ a])
  qed
qed

lemma distinct_loopPairs: "N < 2 ^ 32 \<Longrightarrow> distinct (loopPairs N)"
proof (cases "N = 0")
  case True then show ?thesis by (simp add: loopPairs_0)
next
  case False
  assume "N < 2 ^ 32"
  with False have e: "loopPairs N = concat (map (\<lambda>i. map (\<lambda>j. (i, j)) [i + 1..<N]) [0..<N - 1])"
    by (simp add: loopPairs_pos)
  have "distinct (concat (map (\<lambda>i. map (\<lambda>j. (i, j)) [i + 1..<N]) [0..<M]))" for M
    by (induction M) (auto simp: distinct_map inj_on_def)
  then show ?thesis by (simp add: e)
qed

lemma length_increment [simp]: "length (increment vs i) = length vs"
  by (simp add: increment_def)

lemma nth_increment:
  "i < length vs \<Longrightarrow> k < length vs \<Longrightarrow> increment vs i ! k = vs ! k + (if k = i then 1 else 0)"
  by (simp add: increment_def nth_list_update)

lemma sum_list_increment: "i < length vs \<Longrightarrow> sum_list (increment vs i) = sum_list vs + 1"
  by (simp add: increment_def sum_list_update)

lemma countValences_Nil [simp]: "countValences bo [] vs = vs"
  by (simp add: countValences_def)

lemma countValences_Cons [simp]:
  "countValences bo ((i, j) # ps) vs =
     countValences bo ps
       (if 1 / 2 \<le> getOrder bo i j \<and> getOrder bo i j < 7 / 2
        then increment (increment vs i) j else vs)"
  by (simp add: countValences_def Let_def)

lemma length_countValences [simp]: "length (countValences bo ps vs) = length vs"
  by (induction ps arbitrary: vs) auto

lemma nth_countValences:
  "\<forall>(i, j) \<in> set ps. i < length vs \<and> j < length vs \<and> i \<noteq> j \<Longrightarrow> k < length vs \<Longrightarrow>
   countValences bo ps vs ! k =
     vs ! k + length (filter (\<lambda>(i, j). (1 / 2 \<le> getOrder bo i j \<and> getOrder bo i j < 7 / 2)
                                   \<and> (i = k \<or> j = k)) ps)"
proof (induction ps arbitrary: vs)
  case Nil
  then show ?case by simp
next
  case (Cons p ps)
  obtain i j where p: "p = (i, j)" by (cases p)
  from Cons.prems p have ij: "i < length vs" "j < length vs" "i \<noteq> j" by auto
  let ?vs' = "if 1 / 2 \<le> getOrder bo i j \<and> getOrder bo i j < 7 / 2
              then increment (increment vs i) j else vs"
  have len: "length ?vs' = length vs" by simp
  have rest: "\<forall>(i, j) \<in> set ps. i < length ?vs' \<and> j < length ?vs' \<and> i \<noteq> j"
    using Cons.prems(1) by (simp only: len) auto
  have k': "k < length ?vs'" using Cons.prems(2) by (simp only: len)
  have step: "?vs' ! k = vs ! k +
      (if (1 / 2 \<le> getOrder bo i j \<and> getOrder bo i j < 7 / 2) \<and> (i = k \<or> j = k) then 1 else 0)"
    using ij Cons.prems(2) by (auto simp: nth_increment)
  show ?case
    unfolding p countValences_Cons Cons.IH [OF rest k'] step by simp
qed

lemma sum_list_countValences:
  "\<forall>(i, j) \<in> set ps. i < length vs \<and> j < length vs \<Longrightarrow>
   sum_list (countValences bo ps vs) =
     sum_list vs + 2 * length (filter (\<lambda>(i, j). 1 / 2 \<le> getOrder bo i j \<and> getOrder bo i j < 7 / 2) ps)"
proof (induction ps arbitrary: vs)
  case Nil
  then show ?case by simp
next
  case (Cons p ps)
  obtain i j where p: "p = (i, j)" by (cases p)
  from Cons.prems p have ij: "i < length vs" "j < length vs" by auto
  let ?vs' = "if 1 / 2 \<le> getOrder bo i j \<and> getOrder bo i j < 7 / 2
              then increment (increment vs i) j else vs"
  have len: "length ?vs' = length vs" by simp
  have rest: "\<forall>(i, j) \<in> set ps. i < length ?vs' \<and> j < length ?vs'"
    using Cons.prems(1) by (simp only: len) auto
  have step: "sum_list ?vs' = sum_list vs +
      (if 1 / 2 \<le> getOrder bo i j \<and> getOrder bo i j < 7 / 2 then 2 else 0)"
    using ij by (auto simp: sum_list_increment)
  show ?case
    unfolding p countValences_Cons Cons.IH [OF rest] step by simp
qed

lemma getOrder_commute: "getOrder bo i j = getOrder bo j i"
  by (simp add: getOrder_def min.commute max.commute)

lemma incident_pairs_card:
  assumes "N < 2 ^ 32" and "k < N"
  shows "length (filter (\<lambda>(i, j). P (getOrder bo i j) \<and> (i = k \<or> j = k)) (loopPairs N)) =
         card {j. j < N \<and> j \<noteq> k \<and> P (getOrder bo k j)}"
proof -
  let ?B = "{j. j < N \<and> j \<noteq> k \<and> P (getOrder bo k j)}"
  let ?g = "\<lambda>j. (min k j, max k j)"
  have "length (filter (\<lambda>(i, j). P (getOrder bo i j) \<and> (i = k \<or> j = k)) (loopPairs N)) =
        card ({x. (\<lambda>(i, j). P (getOrder bo i j) \<and> (i = k \<or> j = k)) x} \<inter> set (loopPairs N))"
    by (rule distinct_length_filter) (rule distinct_loopPairs [OF assms(1)])
  also have "{x. (\<lambda>(i, j). P (getOrder bo i j) \<and> (i = k \<or> j = k)) x} \<inter> set (loopPairs N) =
        {(i, j). i < j \<and> j < N \<and> P (getOrder bo i j) \<and> (i = k \<or> j = k)}"
    unfolding set_loopPairs [OF assms(1)] by auto
  also have "\<dots> = ?g ` ?B"
  proof (rule set_eqI, clarify)
    fix i j
    show "(i, j) \<in> {(i, j). i < j \<and> j < N \<and> P (getOrder bo i j) \<and> (i = k \<or> j = k)}
          \<longleftrightarrow> (i, j) \<in> ?g ` ?B"
    proof
      assume "(i, j) \<in> {(i, j). i < j \<and> j < N \<and> P (getOrder bo i j) \<and> (i = k \<or> j = k)}"
      then have h: "i < j" "j < N" "P (getOrder bo i j)" "i = k \<or> j = k" by auto
      from h(4) show "(i, j) \<in> ?g ` ?B"
      proof
        assume "i = k"
        with h have "j \<in> ?B" "?g j = (i, j)" by auto
        then show ?thesis by (metis (no_types, lifting) image_eqI)
      next
        assume "j = k"
        with h have "i \<in> ?B" "?g i = (i, j)" by (auto simp: getOrder_commute)
        then show ?thesis by (metis (no_types, lifting) image_eqI)
      qed
    next
      assume "(i, j) \<in> ?g ` ?B"
      then obtain m where m: "m \<in> ?B" "(i, j) = ?g m" by auto
      then show "(i, j) \<in> {(i, j). i < j \<and> j < N \<and> P (getOrder bo i j) \<and> (i = k \<or> j = k)}"
        using assms by (cases "k < m") (auto simp: min_def max_def getOrder_commute)
    qed
  qed
  also have "card (?g ` ?B) = card ?B"
    by (rule card_image) (auto simp: inj_on_def min_def max_def split: if_splits)
  finally show ?thesis .
qed

lemma bondBlock_defined:
  "\<forall>(i, j) \<in> set ps. 0 \<le> c_round (getOrder bo i j) \<and> c_round (getOrder bo i j) < 2 ^ 32 \<Longrightarrow>
   bondBlock bo ps =
     Inr (concat (map (\<lambda>(i, j). if c_round (getOrder bo i j) \<in> {1, 2, 3}
                                 then bondLine i j (nat (c_round (getOrder bo i j))) else []) ps))"
proof (induction ps)
  case Nil
  then show ?case by simp
next
  case (Cons p ps)
  obtain i j where p: "p = (i, j)" by (cases p)
  let ?r = "c_round (getOrder bo i j)"
  from Cons.prems p have r: "0 \<le> ?r" "?r < 2 ^ 32" by simp_all
  then have d: "double_to_unsigned ?r = Some (nat ?r)" by (simp add: double_to_unsigned_def)
  have t: "(0 < nat ?r \<and> nat ?r < 4) \<longleftrightarrow> ?r \<in> {1, 2, 3}" using r(1) by auto
  from Cons.prems have "\<forall>(i, j) \<in> set ps. 0 \<le> c_round (getOrder bo i j) \<and> c_round (getOrder bo i j) < 2 ^ 32"
    by simp
  then have ih: "bondBlock bo ps = Inr (concat (map (\<lambda>(i, j). if c_round (getOrder bo i j) \<in> {1, 2, 3}
                                 then bondLine i j (nat (c_round (getOrder bo i j))) else []) ps))"
    by (rule Cons.IH)
  show ?case unfolding p by (simp only: bondBlock.simps d ih t option.case sum.case list.map prod.case concat.simps)
qed

lemma write_mol_Some:
  assumes N: "length atoms < 2 ^ 32"
    and d: "\<And>i j. i < j \<Longrightarrow> j < length atoms \<Longrightarrow>
              - (1 / 2) < getOrder bo i j \<and> getOrder bo i j < 2 ^ 32 - 1 / 2"
  shows "write_mol env atoms (Some bo) v =
     Inr (headerLines env @
          countsLine (length atoms) (bondCount (writeValences (length atoms) (Some bo))) v @
          atomBlock env atoms (writeValences (length atoms) (Some bo)) @
          concat (map (\<lambda>(i, j). if c_round (getOrder bo i j) \<in> {1, 2, 3}
                                 then bondLine i j (nat (c_round (getOrder bo i j))) else [])
                   (loopPairs (length atoms))) @
          ''M END'')"
proof -
  have "\<forall>(i, j) \<in> set (loopPairs (length atoms)).
          0 \<le> c_round (getOrder bo i j) \<and> c_round (getOrder bo i j) < 2 ^ 32"
    unfolding set_loopPairs [OF N] c_round_nonneg c_round_less using d by blast
  then have b: "bondBlock bo (loopPairs (length atoms)) =
     Inr (concat (map (\<lambda>(i, j). if c_round (getOrder bo i j) \<in> {1, 2, 3}
                                 then bondLine i j (nat (c_round (getOrder bo i j))) else [])
                   (loopPairs (length atoms))))"
    by (rule bondBlock_defined)
  show ?thesis
    by (simp only: write_mol_def Let_def option.case b sum.case)
qed

lemma valences_card:
  assumes N: "N < 2 ^ 32" and k: "k < N"
  shows "writeValences N (Some bo) ! k =
         card {j. j < N \<and> j \<noteq> k \<and> 1 / 2 \<le> getOrder bo k j \<and> getOrder bo k j < 7 / 2}"
proof -
  have p: "\<forall>(i, j) \<in> set (loopPairs N).
             i < length (replicate N (0::nat)) \<and> j < length (replicate N (0::nat)) \<and> i \<noteq> j"
    unfolding set_loopPairs [OF N] by auto
  have k': "k < length (replicate N (0::nat))" using k by simp
  have "writeValences N (Some bo) ! k =
        length (filter (\<lambda>(i, j). (1 / 2 \<le> getOrder bo i j \<and> getOrder bo i j < 7 / 2)
                                   \<and> (i = k \<or> j = k)) (loopPairs N))"
    unfolding writeValences_def option.case nth_countValences [OF p k'] using k by simp
  also have "\<dots> = card {j. j < N \<and> j \<noteq> k \<and> 1 / 2 \<le> getOrder bo k j \<and> getOrder bo k j < 7 / 2}"
    using incident_pairs_card [OF N k, of "\<lambda>x. 1 / 2 \<le> x \<and> x < 7 / 2" bo]
    by (simp add: conj_assoc)
  finally show ?thesis .
qed

lemma sum_list_le_length_times: "(\<And>x. x \<in> set xs \<Longrightarrow> x \<le> m) \<Longrightarrow> sum_list xs \<le> length xs * (m::nat)"
  by (induction xs) (simp_all add: add_le_mono)

lemma length_writeValences [simp]: "length (writeValences N b) = N"
  by (cases b) (simp_all add: writeValences_def)

text \<open>
  Claim C7.  Writing an atom collection of size 0, with or without bond orders, gives
  exactly the three header lines, the counts line with atom count 0 and bond count 0,
  and the terminator \<^verbatim>\<open>M END\<close>; there is no atom line and no bond line.
\<close>

theorem write_empty_molecule:
  "write_mol env [] bondOrdersOption formatVersion =
     Inr (''Unnamed Molecule'' @ nl @
          ''##   SCINE'' @ put_time (localNow env) @ ''3D'' @ nl @
          nl @
          ''  0  0  0  0  0  0  0  0  0  0999'' @ setw 6 formatVersion @ nl @
          ''M END'')"
proof -
  have v: "writeValences 0 bondOrdersOption = []"
    by (cases bondOrdersOption) (simp_all add: writeValences_def countValences_def loopPairs_0)
  have b: "(case bondOrdersOption of None \<Rightarrow> Inr []
            | Some bondOrders \<Rightarrow> bondBlock bondOrders (loopPairs 0)) = Inr []"
    by (cases bondOrdersOption) (simp_all add: loopPairs_0)
  have c: "countsLine 0 0 formatVersion =
    ''  0  0  0  0  0  0  0  0  0  0999'' @ setw 6 formatVersion @ nl"
    by (simp add: countsLine_def setw_3_0 setw_3_999 show_nat_0 show_nat_999)
  have h: "headerLines env =
    ''Unnamed Molecule'' @ nl @ ''##   SCINE'' @ put_time (localNow env) @ ''3D'' @ nl @ nl"
    by (simp add: headerLines_def setw_def numeral_3_eq_3)
  show ?thesis
    by (simp add: write_mol_def v b c h atomBlock_def bondCount_def)
qed

lemma sampleBonds_range:
  "- (1 / 2) < getOrder sampleBonds i j \<and> getOrder sampleBonds i j < 2 ^ 32 - 1 / 2"
  by (simp add: sampleBonds_def getOrder_def withOrder_def resize_def emptyBondOrders_def)

lemma sampleBonds_nonneg:
  "0 \<le> getOrder sampleBonds i j \<and> getOrder sampleBonds i j < 2 ^ 32 - 1 / 2"
  by (simp add: sampleBonds_def getOrder_def withOrder_def resize_def emptyBondOrders_def)

lemma floor_rat_numeral [simp]: "\<lfloor>numeral a / numeral b :: rat\<rfloor> = numeral a div numeral b"
  by (metis floor_divide_of_int_eq of_int_numeral)

lemma floor_rat_one_numeral [simp]: "\<lfloor>1 / numeral b :: rat\<rfloor> = 1 div numeral b"
  by (metis floor_divide_of_int_eq of_int_1 of_int_numeral)

lemma ceiling_rat_numeral [simp]:
  "\<lceil>numeral a / numeral b :: rat\<rceil> = - (- numeral a div numeral b)"
  by (metis ceiling_divide_eq_div of_int_numeral)

lemma loopPairs_3: "loopPairs 3 = [(0, 1), (0, 2), (1, 2)]"
  by code_simp

lemma sample_valences: "writeValences 3 (Some sampleBonds) = [2, 1, 1]"
  by code_simp

lemma ilog2_1: "ilog2 (Suc 0) = 0"
  by (simp add: ilog2.simps)

lemma sample_products:
  "double_times 0 (angstrom_per_bohr sampleEnv) = 0"
  "double_times 2 (angstrom_per_bohr sampleEnv) = 4766404577572741 / 4503599627370496"
  "double_times (- 1) (angstrom_per_bohr sampleEnv) = - (4766404577572741 / 9007199254740992)"
  "double_times (3 / 2) (angstrom_per_bohr sampleEnv) = 893700858294889 / 1125899906842624"
  by (simp_all add: double_times_def sampleEnv_def round_to_double_def ulp_exponent_def Let_def
      ilog2_1 round_half_even_def)


lemma bondLine_text:
  "bondLine i j r =
     setw 3 (show_nat (1 + i)) @ setw 3 (show_nat (1 + j)) @ setw 3 (show_nat r) @
     ''  0  0  0  0'' @ nl"
  by (simp add: bondLine_def show_nat_0 setw_3_0)

lemma setw_2_0: "setw 2 ''0'' = '' 0''"
  by (simp add: setw_def)

lemma atomLine_text:
  "atomLine env a v =
     (case position a of (x, y, z) \<Rightarrow>
        setw 10 (fixed4 (double_times x (angstrom_per_bohr env))) @
        setw 10 (fixed4 (double_times y (angstrom_per_bohr env))) @
        setw 10 (fixed4 (double_times z (angstrom_per_bohr env))) @
        '' '' @ setw 3 (symbol env (element a)) @ '' 0  0  0  0  0'' @
        setw 3 (show_nat v) @ ''  0  0  0  0  0  0'' @ nl)"
  by (simp add: atomLine_def show_nat_0 setw_3_0 setw_2_0 split: prod.splits)

lemma countsLine_text:
  "countsLine N B v =
     setw 3 (show_nat N) @ setw 3 (show_nat B) @ ''  0  0  0  0  0  0  0  0999'' @ setw 6 v @ nl"
  by (simp add: countsLine_def show_nat_0 show_nat_999 setw_3_0 setw_3_999)

lemma sample_header:
  "headerLines sampleEnv = ''Unnamed Molecule'' @ nl @ ''##   SCINE12241912303D'' @ nl @ nl"
  by (simp add: headerLines_def sampleEnv_def put_time_def zero_pad_def setw_def
      show_nat.simps digit_char_def numeral_3_eq_3)

lemma replicate_numeral: "replicate (numeral k) x = x # replicate (pred_numeral k) x"
  by (simp add: numeral_eq_Suc)

lemma sample_fixed4:
  "fixed4 0 = ''0.0000''"
  "fixed4 (4766404577572741 / 4503599627370496) = ''1.0584''"
  "fixed4 (- (4766404577572741 / 9007199254740992)) = ''-0.5292''"
  "fixed4 (893700858294889 / 1125899906842624) = ''0.7938''"
  by (simp_all add: fixed4_def round_half_even_def Let_def show_nat.simps digit_char_def
      zero_pad_def replicate_numeral)

lemma sample_atom_lines:
  "atomLine sampleEnv (sampleAtoms ! 0) 2 =
     ''    0.0000    0.0000    0.0000   C 0  0  0  0  0  2  0  0  0  0  0  0'' @ nl"
  "atomLine sampleEnv (sampleAtoms ! 1) 1 =
     ''    1.0584    0.0000    0.0000   O 0  0  0  0  0  1  0  0  0  0  0  0'' @ nl"
  "atomLine sampleEnv (sampleAtoms ! 2) 1 =
     ''   -0.5292    0.7938    0.0000   H 0  0  0  0  0  1  0  0  0  0  0  0'' @ nl"
  by (simp_all add: atomLine_text sampleAtoms_def sample_products sample_fixed4 setw_def
      show_nat.simps digit_char_def replicate_numeral nl_def, simp_all add: sampleEnv_def replicate_numeral)

lemma upt_0_3: "[0..<3] = [0, 1, 2]"
  by code_simp

lemma length_sampleAtoms: "length sampleAtoms = 3"
  by (simp add: sampleAtoms_def)

lemma sample_atomBlock:
  "atomBlock sampleEnv sampleAtoms [2, 1, 1] =
     ''    0.0000    0.0000    0.0000   C 0  0  0  0  0  2  0  0  0  0  0  0'' @ nl @
     ''    1.0584    0.0000    0.0000   O 0  0  0  0  0  1  0  0  0  0  0  0'' @ nl @
     ''   -0.5292    0.7938    0.0000   H 0  0  0  0  0  1  0  0  0  0  0  0'' @ nl"
proof -
  have "atomBlock sampleEnv sampleAtoms [2, 1, 1] =
        atomLine sampleEnv (sampleAtoms ! 0) 2 @ atomLine sampleEnv (sampleAtoms ! 1) 1 @
        atomLine sampleEnv (sampleAtoms ! 2) 1"
    by (simp add: atomBlock_def length_sampleAtoms upt_0_3)
  then show ?thesis by (simp only: sample_atom_lines append_assoc)
qed

lemma sample_rounded:
  "c_round (getOrder sampleBonds 0 (Suc 0)) = 3" "c_round (getOrder sampleBonds 0 2) = 1"
  "c_round (getOrder sampleBonds (Suc 0) 2) = 0"
  by (simp_all add: sampleBonds_def getOrder_def withOrder_def resize_def emptyBondOrders_def
      c_round_def)

lemma sample_counts: "countsLine 3 2 ''V2000'' = ''  3  2  0  0  0  0  0  0  0  0999 V2000'' @ nl"
  by (simp add: countsLine_text setw_def show_nat.simps digit_char_def replicate_numeral)

lemma sample_bond_lines:
  "bondLine 0 (Suc 0) 3 = ''  1  2  3  0  0  0  0'' @ nl"
  "bondLine 0 2 1 = ''  1  3  1  0  0  0  0'' @ nl"
  by (simp_all add: bondLine_text setw_def show_nat.simps digit_char_def replicate_numeral)

text \<open>
  Claim C5, amended.  With bond orders given that round into the range of \<^verbatim>\<open>unsigned\<close>
  (those of the data model do), the bond block of the written text is, pair by pair in
  loop order, one line when the order of the pair rounded to the nearest integer is 1, 2
  or 3, and nothing otherwise; the line is the two 1-based indices, the rounded order as
  the bond type and four zero fields, each right-justified in 3 characters.  The loop
  visits every pair \<open>i < j\<close> of atom indices exactly once.  An order of 3.5 rounds to 4 (no
  line), an order of 3.49999 rounds to 3.
\<close>

theorem bond_lines_emitted:
  assumes "length atoms < 2 ^ 32"
    and "\<And>i j. i < j \<Longrightarrow> j < length atoms \<Longrightarrow>
           - (1 / 2) < getOrder bondOrders i j \<and> getOrder bondOrders i j < 2 ^ 32 - 1 / 2"
  shows "write_mol env atoms (Some bondOrders) formatVersion =
     Inr (headerLines env @
          countsLine (length atoms) (bondCount (writeValences (length atoms) (Some bondOrders)))
            formatVersion @
          atomBlock env atoms (writeValences (length atoms) (Some bondOrders)) @
          concat (map (\<lambda>(i, j). if c_round (getOrder bondOrders i j) \<in> {1, 2, 3}
                                 then setw 3 (show_nat (1 + i)) @ setw 3 (show_nat (1 + j)) @
                                      setw 3 (show_nat (nat (c_round (getOrder bondOrders i j)))) @
                                      ''  0  0  0  0'' @ nl
                                 else [])
                   (loopPairs (length atoms))) @
          ''M END'')
     \<and> distinct (loopPairs (length atoms))
     \<and> set (loopPairs (length atoms)) = {(i, j). i < j \<and> j < length atoms}
     \<and> c_round (7 / 2) = 4 \<and> c_round (349999 / 100000) = 3"
proof -
  have "c_round (7 / 2) = 4" "c_round (349999 / 100000) = 3"
    by (simp_all add: c_round_def)
  with write_mol_Some [OF assms, of env formatVersion]
    distinct_loopPairs [OF assms(1)] set_loopPairs [OF assms(1)]
  show ?thesis unfolding bondLine_text by (intro conjI)
qed

lemma sample_show_nat:
  "show_nat (Suc 0) = ''1''" "show_nat (Suc (Suc 0)) = ''2''" "show_nat (Suc (Suc (Suc 0))) = ''3''"
  "show_nat 2 = ''2''" "show_nat 3 = ''3''"
  by (simp_all add: show_nat.simps digit_char_def)

lemma sample_bond_block:
  "concat (map (\<lambda>(i, j). if c_round (getOrder sampleBonds i j) \<in> {1, 2, 3}
                          then setw 3 (show_nat (1 + i)) @ setw 3 (show_nat (1 + j)) @
                               setw 3 (show_nat (nat (c_round (getOrder sampleBonds i j)))) @
                               ''  0  0  0  0'' @ nl
                          else [])
            (loopPairs (length sampleAtoms))) =
   ''  1  2  3  0  0  0  0'' @ nl @ ''  1  3  1  0  0  0  0'' @ nl"
  by (simp add: length_sampleAtoms loopPairs_3 sample_rounded sample_show_nat setw_def
      replicate_numeral)

lemma sample_counts_line:
  "countsLine (length sampleAtoms)
     (bondCount (writeValences (length sampleAtoms) (Some sampleBonds))) ''V2000'' =
   ''  3  2  0  0  0  0  0  0  0  0999 V2000'' @ nl"
  by (simp add: length_sampleAtoms sample_valences bondCount_def sample_counts)

lemma sample_atom_block:
  "atomBlock sampleEnv sampleAtoms (writeValences (length sampleAtoms) (Some sampleBonds)) =
     ''    0.0000    0.0000    0.0000   C 0  0  0  0  0  2  0  0  0  0  0  0'' @ nl @
     ''    1.0584    0.0000    0.0000   O 0  0  0  0  0  1  0  0  0  0  0  0'' @ nl @
     ''   -0.5292    0.7938    0.0000   H 0  0  0  0  0  1  0  0  0  0  0  0'' @ nl"
  by (simp only: length_sampleAtoms sample_valences sample_atomBlock)

lemma loopPairs_2: "loopPairs 2 = [(0, 1)]"
  by code_simp

lemma length_twoAtoms: "length twoAtoms = 2"
  by (simp add: twoAtoms_def)


lemma half_valences: "writeValences 2 (Some borderBonds) = [0, 0]"
  by code_simp

lemma half_atom_block:
  "atomBlock sampleEnv
     twoAtoms
     (writeValences
        (length twoAtoms)
        (Some borderBonds)) =
   ''    0.0000    0.0000    0.0000   C 0  0  0  0  0  0  0  0  0  0  0  0'' @ nl @
   ''    1.0584    0.0000    0.0000   O 0  0  0  0  0  0  0  0  0  0  0  0'' @ nl"
proof -
  have u: "[0..<2] = [0, Suc 0]" by (simp add: numeral_2_eq_2)
  have "atomBlock sampleEnv twoAtoms (writeValences (length twoAtoms) (Some borderBonds)) =
        atomBlock sampleEnv twoAtoms [0, 0]"
    by (simp only: length_twoAtoms half_valences)
  also have "\<dots> = atomLine sampleEnv (twoAtoms ! 0) 0 @ atomLine sampleEnv (twoAtoms ! 1) 0"
    by (simp add: atomBlock_def length_twoAtoms u)
  also have "\<dots> =
     ''    0.0000    0.0000    0.0000   C 0  0  0  0  0  0  0  0  0  0  0  0'' @ nl @
     ''    1.0584    0.0000    0.0000   O 0  0  0  0  0  0  0  0  0  0  0  0'' @ nl"
    by (simp add: atomLine_text twoAtoms_def sample_products sample_fixed4 setw_def show_nat_0
        replicate_numeral nl_def, simp add: sampleEnv_def replicate_numeral)
  finally show ?thesis .
qed

lemma half_counts_line:
  "countsLine
     (length twoAtoms)
     (bondCount (writeValences
        (length twoAtoms)
        (Some borderBonds))) ''V2000'' =
   ''  2  0  0  0  0  0  0  0  0  0999 V2000'' @ nl"
  by (simp only: length_twoAtoms half_valences)
     (simp add: bondCount_def countsLine_text sample_show_nat show_nat_0 setw_def
        replicate_numeral)

lemma half_bond_block:
  "concat (map (\<lambda>(i, j). if c_round (getOrder borderBonds i j)
                              \<in> {1, 2, 3}
                          then setw 3 (show_nat (1 + i)) @ setw 3 (show_nat (1 + j)) @
                               setw 3 (show_nat (nat (c_round
                                 (getOrder borderBonds i j)))) @
                               ''  0  0  0  0'' @ nl
                          else [])
            (loopPairs (length twoAtoms))) = []"
  by (simp only: length_twoAtoms loopPairs_2)
     (simp add: borderBonds_def getOrder_def withOrder_def resize_def c_round_def)

lemma half_range:
  "- (1 / 2) < getOrder borderBonds i j \<and>
   getOrder borderBonds i j < 2 ^ 32 - 1 / 2"
  by (simp add: borderBonds_def getOrder_def withOrder_def resize_def)

text \<open>The sample molecule written out: the pair with order 3.49999 has a bond line of type 3,
  the pair with order 0.5 one of type 1, the pair with order 0.49999 none.  And two atoms
  with order 3.5 between them: no bond line.\<close>

theorem bond_lines_emitted_witness:
  "length sampleAtoms < 2 ^ 32
   \<and> getOrder sampleBonds 0 1 = 7881276829900231 / 2251799813685248
   \<and> write_mol sampleEnv sampleAtoms (Some sampleBonds) ''V2000'' =
     Inr (''Unnamed Molecule'' @ nl @
          ''##   SCINE12241912303D'' @ nl @
          nl @
          ''  3  2  0  0  0  0  0  0  0  0999 V2000'' @ nl @
          ''    0.0000    0.0000    0.0000   C 0  0  0  0  0  2  0  0  0  0  0  0'' @ nl @
          ''    1.0584    0.0000    0.0000   O 0  0  0  0  0  1  0  0  0  0  0  0'' @ nl @
          ''   -0.5292    0.7938    0.0000   H 0  0  0  0  0  1  0  0  0  0  0  0'' @ nl @
          ''  1  2  3  0  0  0  0'' @ nl @
          ''  1  3  1  0  0  0  0'' @ nl @
          ''M END'')
   \<and> getOrder borderBonds 0 1 = 7 / 2
   \<and> write_mol sampleEnv
       twoAtoms
       (Some borderBonds) ''V2000'' =
     Inr (''Unnamed Molecule'' @ nl @
          ''##   SCINE12241912303D'' @ nl @
          nl @
          ''  2  0  0  0  0  0  0  0  0  0999 V2000'' @ nl @
          ''    0.0000    0.0000    0.0000   C 0  0  0  0  0  0  0  0  0  0  0  0'' @ nl @
          ''    1.0584    0.0000    0.0000   O 0  0  0  0  0  0  0  0  0  0  0  0'' @ nl @
          ''M END'')"
proof -
  have h1: "length sampleAtoms < 2 ^ 32" by (simp add: length_sampleAtoms)
  have h2: "i < j \<Longrightarrow> j < length sampleAtoms \<Longrightarrow>
      - (1 / 2) < getOrder sampleBonds i j \<and> getOrder sampleBonds i j < 2 ^ 32 - 1 / 2" for i j
    by (rule sampleBonds_range)
  have g: "getOrder sampleBonds 0 1 = 7881276829900231 / 2251799813685248"
    by (simp add: sampleBonds_def getOrder_def withOrder_def resize_def emptyBondOrders_def)
  note e = bond_lines_emitted [of sampleAtoms sampleBonds sampleEnv "''V2000''", OF h1 h2,
      THEN conjunct1, unfolded sample_header sample_counts_line sample_atom_block sample_bond_block]
  have k1: "length twoAtoms < 2 ^ 32"
    by (simp add: length_twoAtoms)
  have g': "getOrder borderBonds 0 1 = 7 / 2"
    by (simp add: borderBonds_def getOrder_def withOrder_def)
  note e' = bond_lines_emitted [of twoAtoms borderBonds sampleEnv "''V2000''", OF k1 half_range,
      THEN conjunct1, unfolded sample_header half_counts_line half_atom_block half_bond_block]
  from h1 g e g' e' show ?thesis by simp
qed

lemma two_atoms_undefined:
  assumes "2 ^ 32 \<le> c_round v"
  shows "write_mol env [a0, a1] (Some (withOrder (resize emptyBondOrders 2) 0 1 v)) formatVersion =
         Inl UndefinedBehaviour"
proof -
  let ?bo = "withOrder (resize emptyBondOrders 2) 0 1 v"
  have g: "getOrder ?bo 0 1 = v"
    by (simp add: getOrder_def withOrder_def resize_def)
  have d: "double_to_unsigned (c_round v) = None"
    using assms by (simp add: double_to_unsigned_def)
  have b: "bondBlock ?bo (loopPairs 2) = Inl UndefinedBehaviour"
    unfolding loopPairs_2 by (simp only: bondBlock.simps g d option.case)
  have n: "length [a0, a1] = 2" by simp
  show ?thesis
    by (simp only: write_mol_def Let_def n option.case b sum.case)
qed

text \<open>
  Claim C5 as stated fails: an order of 4294967298 rounds to itself, which is not 1, 2 or
  3 and which \<^verbatim>\<open>unsigned\<close> cannot hold, so the conversion in the bond block is
  undefined (a conversion that keeps the low 32 bits makes it 2, and a bond line is
  written).
\<close>

theorem bond_line_counterexample:
  "c_round (getOrder (withOrder (resize emptyBondOrders 2) 0 1 4294967298) 0 1) = 4294967298
   \<and> write_mol sampleEnv
       [\<lparr>element = ''C'', position = (0, 0, 0)\<rparr>, \<lparr>element = ''O'', position = (2, 0, 0)\<rparr>]
       (Some (withOrder (resize emptyBondOrders 2) 0 1 4294967298)) ''V2000'' =
     Inl UndefinedBehaviour"
proof -
  have g: "getOrder (withOrder (resize emptyBondOrders 2) 0 1 4294967298) 0 1 = 4294967298"
    by (simp add: getOrder_def withOrder_def resize_def)
  have c: "c_round 4294967298 = 4294967298" by (simp add: c_round_def)
  have "2 ^ 32 \<le> c_round 4294967298" unfolding c by simp
  from two_atoms_undefined [OF this] g c show ?thesis by simp
qed

text \<open>
  Claim C6.  With bond orders given, the atom line of atom \<open>i\<close> is the three coordinates in
  angstrom, the symbol, five zero fields, then the valence field, then six zero fields;
  the valence field holds the number of atoms \<open>j \<noteq> i\<close> whose bond order with \<open>i\<close> lies in
  \<open>[0.5, 3.5)\<close>.
\<close>

theorem valence_field:
  assumes "length atoms < 2 ^ 32"
    and "\<And>i j. i < j \<Longrightarrow> j < length atoms \<Longrightarrow>
           - (1 / 2) < getOrder bondOrders i j \<and> getOrder bondOrders i j < 2 ^ 32 - 1 / 2"
  shows "write_mol env atoms (Some bondOrders) formatVersion =
     Inr (headerLines env @
          countsLine (length atoms) (bondCount (writeValences (length atoms) (Some bondOrders)))
            formatVersion @
          concat (map (\<lambda>i. case position (atoms ! i) of (x, y, z) \<Rightarrow>
                         setw 10 (fixed4 (double_times x (angstrom_per_bohr env))) @
                         setw 10 (fixed4 (double_times y (angstrom_per_bohr env))) @
                         setw 10 (fixed4 (double_times z (angstrom_per_bohr env))) @
                         '' '' @ setw 3 (symbol env (element (atoms ! i))) @ '' 0  0  0  0  0'' @
                         setw 3 (show_nat (card {j. j < length atoms \<and> j \<noteq> i \<and>
                                                     1 / 2 \<le> getOrder bondOrders i j \<and>
                                                     getOrder bondOrders i j < 7 / 2})) @
                         ''  0  0  0  0  0  0'' @ nl)
                   [0..<length atoms]) @
          concat (map (\<lambda>(i, j). if c_round (getOrder bondOrders i j) \<in> {1, 2, 3}
                                 then bondLine i j (nat (c_round (getOrder bondOrders i j)))
                                 else [])
                   (loopPairs (length atoms))) @
          ''M END'')"
proof -
  have "atomBlock env atoms (writeValences (length atoms) (Some bondOrders)) =
        concat (map (\<lambda>i. atomLine env (atoms ! i)
                         (card {j. j < length atoms \<and> j \<noteq> i \<and>
                                   1 / 2 \<le> getOrder bondOrders i j \<and>
                                   getOrder bondOrders i j < 7 / 2}))
                   [0..<length atoms])"
    unfolding atomBlock_def
    by (rule arg_cong [where f = concat], rule map_cong [OF refl])
       (simp add: valences_card [OF assms(1)])
  then show ?thesis
    using write_mol_Some [OF assms, of env formatVersion] unfolding atomLine_text by simp
qed

lemma sample_orders:
  "getOrder sampleBonds 0 2 = 1 / 2"
  "getOrder sampleBonds 1 2 = 9007019110755897 / 18014398509481984"
  by (simp_all add: sampleBonds_def getOrder_def withOrder_def resize_def emptyBondOrders_def)

lemma sample_bond_block_lines:
  "concat (map (\<lambda>(i, j). if c_round (getOrder sampleBonds i j) \<in> {1, 2, 3}
                          then bondLine i j (nat (c_round (getOrder sampleBonds i j)))
                          else [])
            (loopPairs (length sampleAtoms))) =
   ''  1  2  3  0  0  0  0'' @ nl @ ''  1  3  1  0  0  0  0'' @ nl"
  unfolding bondLine_text by (rule sample_bond_block)

lemma sample_valence_atom_block:
  "concat (map (\<lambda>i. case position (sampleAtoms ! i) of (x, y, z) \<Rightarrow>
                  setw 10 (fixed4 (double_times x (angstrom_per_bohr sampleEnv))) @
                  setw 10 (fixed4 (double_times y (angstrom_per_bohr sampleEnv))) @
                  setw 10 (fixed4 (double_times z (angstrom_per_bohr sampleEnv))) @
                  '' '' @ setw 3 (symbol sampleEnv (element (sampleAtoms ! i))) @
                  '' 0  0  0  0  0'' @
                  setw 3 (show_nat (card {j. j < length sampleAtoms \<and> j \<noteq> i \<and>
                                              1 / 2 \<le> getOrder sampleBonds i j \<and>
                                              getOrder sampleBonds i j < 7 / 2})) @
                  ''  0  0  0  0  0  0'' @ nl)
            [0..<length sampleAtoms]) =
     ''    0.0000    0.0000    0.0000   C 0  0  0  0  0  2  0  0  0  0  0  0'' @ nl @
     ''    1.0584    0.0000    0.0000   O 0  0  0  0  0  1  0  0  0  0  0  0'' @ nl @
     ''   -0.5292    0.7938    0.0000   H 0  0  0  0  0  1  0  0  0  0  0  0'' @ nl"
proof -
  have N: "length sampleAtoms < 2 ^ 32" by (simp add: length_sampleAtoms)
  have "concat (map (\<lambda>i. case position (sampleAtoms ! i) of (x, y, z) \<Rightarrow>
                  setw 10 (fixed4 (double_times x (angstrom_per_bohr sampleEnv))) @
                  setw 10 (fixed4 (double_times y (angstrom_per_bohr sampleEnv))) @
                  setw 10 (fixed4 (double_times z (angstrom_per_bohr sampleEnv))) @
                  '' '' @ setw 3 (symbol sampleEnv (element (sampleAtoms ! i))) @
                  '' 0  0  0  0  0'' @
                  setw 3 (show_nat (card {j. j < length sampleAtoms \<and> j \<noteq> i \<and>
                                              1 / 2 \<le> getOrder sampleBonds i j \<and>
                                              getOrder sampleBonds i j < 7 / 2})) @
                  ''  0  0  0  0  0  0'' @ nl)
            [0..<length sampleAtoms]) =
        atomBlock sampleEnv sampleAtoms (writeValences (length sampleAtoms) (Some sampleBonds))"
    unfolding atomBlock_def atomLine_text
    by (rule arg_cong [where f = concat], rule map_cong [OF refl])
       (simp add: valences_card [OF N])
  then show ?thesis by (simp only: sample_atom_block)
qed

text \<open>In the sample molecule the hydrogen has order 0.5 with the carbon, which counts, and
  order 0.49999 with the oxygen, which does not: its valence field is 1.\<close>

theorem valence_field_witness:
  "length sampleAtoms < 2 ^ 32
   \<and> getOrder sampleBonds 0 2 = 1 / 2
   \<and> getOrder sampleBonds 1 2 = 9007019110755897 / 18014398509481984
   \<and> write_mol sampleEnv sampleAtoms (Some sampleBonds) ''V2000'' =
     Inr (''Unnamed Molecule'' @ nl @
          ''##   SCINE12241912303D'' @ nl @
          nl @
          ''  3  2  0  0  0  0  0  0  0  0999 V2000'' @ nl @
          ''    0.0000    0.0000    0.0000   C 0  0  0  0  0  2  0  0  0  0  0  0'' @ nl @
          ''    1.0584    0.0000    0.0000   O 0  0  0  0  0  1  0  0  0  0  0  0'' @ nl @
          ''   -0.5292    0.7938    0.0000   H 0  0  0  0  0  1  0  0  0  0  0  0'' @ nl @
          ''  1  2  3  0  0  0  0'' @ nl @
          ''  1  3  1  0  0  0  0'' @ nl @
          ''M END'')"
proof -
  have h1: "length sampleAtoms < 2 ^ 32" by (simp add: length_sampleAtoms)
  have h2: "i < j \<Longrightarrow> j < length sampleAtoms \<Longrightarrow>
      - (1 / 2) < getOrder sampleBonds i j \<and> getOrder sampleBonds i j < 2 ^ 32 - 1 / 2" for i j
    by (rule sampleBonds_range)
  note e = valence_field [of sampleAtoms sampleBonds sampleEnv "''V2000''", OF h1 h2,
      unfolded sample_header sample_counts_line sample_valence_atom_block sample_bond_block_lines]
  from h1 sample_orders e show ?thesis by simp
qed

lemma sum_valences:
  assumes N: "N < 2 ^ 32"
  shows "sum_list (writeValences N (Some bo)) =
         2 * length (filter (\<lambda>(i, j). 1 / 2 \<le> getOrder bo i j \<and> getOrder bo i j < 7 / 2)
                       (loopPairs N))"
proof -
  have p: "\<forall>(i, j) \<in> set (loopPairs N).
             i < length (replicate N (0::nat)) \<and> j < length (replicate N (0::nat))"
    unfolding set_loopPairs [OF N] by auto
  show ?thesis
    unfolding writeValences_def option.case sum_list_countValences [OF p] by simp
qed

lemma bondCount_bond_lines:
  assumes N: "N < 2 ^ 32"
    and K: "length (filter (\<lambda>(i, j). 1 / 2 \<le> getOrder bo i j \<and> getOrder bo i j < 7 / 2)
                      (loopPairs N)) < 2 ^ 31"
  shows "bondCount (writeValences N (Some bo)) =
         length (filter (\<lambda>(i, j). c_round (getOrder bo i j) \<in> {1, 2, 3}) (loopPairs N))"
proof -
  let ?K = "length (filter (\<lambda>(i, j). 1 / 2 \<le> getOrder bo i j \<and> getOrder bo i j < 7 / 2) (loopPairs N))"
  have "2 * ?K < 2 ^ 32" using K by simp
  then have "bondCount (writeValences N (Some bo)) = ?K"
    unfolding bondCount_def sum_valences [OF N] by simp
  also have "?K = length (filter (\<lambda>(i, j). c_round (getOrder bo i j) \<in> {1, 2, 3}) (loopPairs N))"
    by (simp only: c_round_123)
  finally show ?thesis .
qed

lemma length_pairs_upto:
  "M \<le> N \<Longrightarrow>
   2 * length (concat (map (\<lambda>i. map (\<lambda>j. (i, j)) [i + 1..<N]) [0..<M])) + M * (M + 1) = 2 * M * N"
proof (induction M)
  case 0
  then show ?case by simp
next
  case (Suc M)
  then have ih: "2 * length (concat (map (\<lambda>i. map (\<lambda>j. (i, j)) [i + 1..<N]) [0..<M])) + M * (M + 1)
                 = 2 * M * N" and le: "Suc M \<le> N"
    by simp_all
  define L where "L = 2 * length (concat (map (\<lambda>i. map (\<lambda>j. (i, j)) [i + 1..<N]) [0..<M]))"
  define P where "P = M * (M + 1)"
  define Q where "Q = 2 * M * N"
  define R where "R = N - Suc M"
  define S where "S = Suc M"
  have a: "2 * length (concat (map (\<lambda>i. map (\<lambda>j. (i, j)) [i + 1..<N]) [0..<Suc M])) =
        L + 2 * R"
    by (simp add: L_def R_def)
  have "R + S = N" unfolding R_def S_def using le by (rule le_add_diff_inverse2)
  then have b: "2 * R + 2 * S = 2 * N" by simp
  have c: "Suc M * (Suc M + 1) = P + 2 * S" by (simp add: P_def S_def)
  have d: "2 * Suc M * N = Q + 2 * N" by (simp add: Q_def)
  have i: "L + P = Q" using ih by (simp only: L_def P_def Q_def)
  have "L + 2 * R + (P + 2 * S) = Q + 2 * N" using b i by linarith
  then show ?case by (simp only: a c d)
qed

lemma length_loopPairs: "N < 2 ^ 32 \<Longrightarrow> 2 * length (loopPairs N) = N * (N - 1)"
proof (cases "N = 0")
  case True
  then show ?thesis by (simp add: loopPairs_0)
next
  case False
  assume N: "N < 2 ^ 32"
  with False have e: "loopPairs N = concat (map (\<lambda>i. map (\<lambda>j. (i, j)) [i + 1..<N]) [0..<N - 1])"
    by (simp add: loopPairs_pos)
  have "2 * length (loopPairs N) + (N - 1) * (N - 1 + 1) = 2 * (N - 1) * N"
    unfolding e by (rule length_pairs_upto) simp
  moreover have "N - 1 + 1 = N" using False by simp
  ultimately have "2 * length (loopPairs N) + (N - 1) * N = 2 * ((N - 1) * N)" by simp
  then show ?thesis by (simp add: mult.commute)
qed

lemma concat_map_if_pair:
  "concat (map (\<lambda>(i, j). if P i j then f i j else []) ps) =
   concat (map (\<lambda>(i, j). f i j) (filter (\<lambda>(i, j). P i j) ps))"
  by (induction ps) auto

text \<open>
  Claim C9, amended.  For bond orders that are nonnegative and below \<open>2 ^ 32 - 1 / 2\<close>, and
  fewer than \<open>2 ^ 31\<close> pairs with an order in \<open>[0.5, 3.5)\<close>, the second field of the counts
  line is the number of bond lines written.
\<close>

theorem bond_count_matches_bond_lines:
  assumes "length atoms < 2 ^ 32"
    and "\<And>i j. i < j \<Longrightarrow> j < length atoms \<Longrightarrow>
           0 \<le> getOrder bondOrders i j \<and> getOrder bondOrders i j < 2 ^ 32 - 1 / 2"
    and "length (filter (\<lambda>(i, j). 1 / 2 \<le> getOrder bondOrders i j \<and>
                                  getOrder bondOrders i j < 7 / 2)
                   (loopPairs (length atoms))) < 2 ^ 31"
  shows "write_mol env atoms (Some bondOrders) formatVersion =
     Inr (headerLines env @
          setw 3 (show_nat (length atoms)) @
          setw 3 (show_nat (length (filter (\<lambda>(i, j). c_round (getOrder bondOrders i j) \<in> {1, 2, 3})
                                      (loopPairs (length atoms))))) @
          ''  0  0  0  0  0  0  0  0999'' @ setw 6 formatVersion @ nl @
          atomBlock env atoms (writeValences (length atoms) (Some bondOrders)) @
          concat (map (\<lambda>(i, j). setw 3 (show_nat (1 + i)) @ setw 3 (show_nat (1 + j)) @
                                 setw 3 (show_nat (nat (c_round (getOrder bondOrders i j)))) @
                                 ''  0  0  0  0'' @ nl)
                   (filter (\<lambda>(i, j). c_round (getOrder bondOrders i j) \<in> {1, 2, 3})
                      (loopPairs (length atoms)))) @
          ''M END'')"
proof -
  have d: "- (1 / 2) < getOrder bondOrders i j \<and> getOrder bondOrders i j < 2 ^ 32 - 1 / 2"
    if "i < j" "j < length atoms" for i j
    using assms(2) [OF that] by simp
  have c: "concat (map (\<lambda>(i, j). if c_round (getOrder bondOrders i j) \<in> {1, 2, 3}
                                 then bondLine i j (nat (c_round (getOrder bondOrders i j)))
                                 else []) ps) =
           concat (map (\<lambda>(i, j). bondLine i j (nat (c_round (getOrder bondOrders i j))))
                   (filter (\<lambda>(i, j). c_round (getOrder bondOrders i j) \<in> {1, 2, 3}) ps))" for ps
    by (rule concat_map_if_pair)
  have "write_mol env atoms (Some bondOrders) formatVersion =
     Inr (headerLines env @
          countsLine (length atoms)
            (length (filter (\<lambda>(i, j). c_round (getOrder bondOrders i j) \<in> {1, 2, 3})
                       (loopPairs (length atoms))))
            formatVersion @
          atomBlock env atoms (writeValences (length atoms) (Some bondOrders)) @
          concat (map (\<lambda>(i, j). bondLine i j (nat (c_round (getOrder bondOrders i j))))
                   (filter (\<lambda>(i, j). c_round (getOrder bondOrders i j) \<in> {1, 2, 3})
                      (loopPairs (length atoms)))) @
          ''M END'')"
    by (simp only: write_mol_Some [OF assms(1) d] bondCount_bond_lines [OF assms(1,3)] c)
  then show ?thesis unfolding countsLine_text bondLine_text by simp
qed

lemma sample_bonded_pairs:
  "length (filter (\<lambda>(i, j). 1 / 2 \<le> getOrder sampleBonds i j \<and> getOrder sampleBonds i j < 7 / 2)
             (loopPairs (length sampleAtoms))) < 2 ^ 31"
proof -
  have "length (filter (\<lambda>(i, j). 1 / 2 \<le> getOrder sampleBonds i j \<and> getOrder sampleBonds i j < 7 / 2)
             (loopPairs (length sampleAtoms))) \<le> length (loopPairs (length sampleAtoms))"
    by (rule length_filter_le)
  also have "\<dots> = 3" by (simp add: length_sampleAtoms loopPairs_3)
  finally show ?thesis by simp
qed

lemma sample_emitted_pairs:
  "filter (\<lambda>(i, j). c_round (getOrder sampleBonds i j) \<in> {1, 2, 3}) (loopPairs (length sampleAtoms))
   = [(0, 1), (0, 2)]"
  by (simp add: length_sampleAtoms loopPairs_3 sample_rounded)

lemma sample_counts_text:
  "setw 3 (show_nat (length sampleAtoms)) = ''  3''"
  "setw 3 (show_nat (length [(0 :: nat, 1 :: nat), (0, 2)])) = ''  2''"
  "setw 6 ''V2000'' = '' V2000''"
  by (simp_all add: length_sampleAtoms sample_show_nat setw_def replicate_numeral)

lemma sample_emitted_lines:
  "concat (map (\<lambda>(i, j). setw 3 (show_nat (1 + i)) @ setw 3 (show_nat (1 + j)) @
                          setw 3 (show_nat (nat (c_round (getOrder sampleBonds i j)))) @
                          ''  0  0  0  0'' @ nl)
             [(0, 1), (0, 2)]) =
   ''  1  2  3  0  0  0  0'' @ nl @ ''  1  3  1  0  0  0  0'' @ nl"
  by (simp add: sample_rounded sample_show_nat setw_def replicate_numeral)

theorem bond_count_matches_bond_lines_witness:
  "length sampleAtoms < 2 ^ 32
   \<and> write_mol sampleEnv sampleAtoms (Some sampleBonds) ''V2000'' =
     Inr (''Unnamed Molecule'' @ nl @
          ''##   SCINE12241912303D'' @ nl @
          nl @
          ''  3  2  0  0  0  0  0  0  0  0999 V2000'' @ nl @
          ''    0.0000    0.0000    0.0000   C 0  0  0  0  0  2  0  0  0  0  0  0'' @ nl @
          ''    1.0584    0.0000    0.0000   O 0  0  0  0  0  1  0  0  0  0  0  0'' @ nl @
          ''   -0.5292    0.7938    0.0000   H 0  0  0  0  0  1  0  0  0  0  0  0'' @ nl @
          ''  1  2  3  0  0  0  0'' @ nl @
          ''  1  3  1  0  0  0  0'' @ nl @
          ''M END'')"
proof -
  have h1: "length sampleAtoms < 2 ^ 32" by (simp add: length_sampleAtoms)
  have h2: "i < j \<Longrightarrow> j < length sampleAtoms \<Longrightarrow>
      0 \<le> getOrder sampleBonds i j \<and> getOrder sampleBonds i j < 2 ^ 32 - 1 / 2" for i j
    by (rule sampleBonds_nonneg)
  note e = bond_count_matches_bond_lines [of sampleAtoms sampleBonds sampleEnv "''V2000''",
      OF h1 h2 sample_bonded_pairs,
      unfolded sample_emitted_pairs sample_counts_text sample_emitted_lines sample_header
        sample_atom_block]
  from h1 e show ?thesis by simp
qed

lemma bonded_pairs_bound:
  assumes "N \<le> 65536"
  shows "length (filter P (loopPairs N)) < 2 ^ 31"
proof -
  have N: "N < 2 ^ 32" using assms by simp
  have "N * (N - 1) \<le> 65536 * 65535" using assms by (intro mult_le_mono) simp_all
  then have "2 * length (loopPairs N) < 2 ^ 32" unfolding length_loopPairs [OF N] by simp
  then have "length (loopPairs N) < 2 ^ 31" by simp
  with length_filter_le [of P "loopPairs N"] show ?thesis by (rule le_less_trans)
qed

lemma getOrder_unitBonds [simp]: "getOrder (unitBonds n) i j = 1"
  by (simp add: getOrder_def unitBonds_def)

lemma c_round_1 [simp]: "c_round 1 = 1"
  by (simp add: c_round_def)

lemma length_loopPairs_65537: "length (loopPairs 65537) = 2147516416"
proof -
  have "2 * length (loopPairs 65537) = 65537 * (65537 - 1)"
    by (rule length_loopPairs) simp
  then show ?thesis by simp
qed

lemma bondCount_unitBonds: "bondCount (writeValences 65537 (Some (unitBonds 65537))) = 32768"
proof -
  have "sum_list (writeValences 65537 (Some (unitBonds 65537))) = 2 * length (loopPairs 65537)"
    by (subst sum_valences) simp_all
  then show ?thesis by (simp add: bondCount_def length_loopPairs_65537)
qed

text \<open>
  Claim C9 as stated fails, in two ways.  A nonnegative order of 4294967297 rounds to a
  value that \<^verbatim>\<open>unsigned\<close> cannot hold, and the conversion in the bond block is undefined.
  And with 65537 atoms, all pairs at order 1, the valences sum to \<open>2 ^ 32 + 65536\<close>: the
  sum wraps, the counts line says 32768 bonds, and 2147516416 bond lines follow.
\<close>

theorem bond_count_counterexample:
  "0 \<le> getOrder (withOrder (resize emptyBondOrders 2) 0 1 4294967297) 0 1
   \<and> write_mol sampleEnv
       [\<lparr>element = ''C'', position = (0, 0, 0)\<rparr>, \<lparr>element = ''O'', position = (2, 0, 0)\<rparr>]
       (Some (withOrder (resize emptyBondOrders 2) 0 1 4294967297)) ''V2000'' =
     Inl UndefinedBehaviour
   \<and> write_mol sampleEnv (replicate 65537 \<lparr>element = ''C'', position = (0, 0, 0)\<rparr>)
       (Some (unitBonds 65537)) ''V2000'' =
     Inr (headerLines sampleEnv @ countsLine 65537 32768 ''V2000'' @
          atomBlock sampleEnv (replicate 65537 \<lparr>element = ''C'', position = (0, 0, 0)\<rparr>)
            (writeValences 65537 (Some (unitBonds 65537))) @
          bondLinesOf (loopPairs 65537) 1 @ ''M END'')
   \<and> length (loopPairs 65537) = 2147516416"
proof -
  have g: "getOrder (withOrder (resize emptyBondOrders 2) 0 1 4294967297) 0 1 = 4294967297"
    by (simp add: getOrder_def withOrder_def resize_def)
  have c: "c_round 4294967297 = 4294967297" by (simp add: c_round_def)
  have "2 ^ 32 \<le> c_round 4294967297" unfolding c by simp
  note a = two_atoms_undefined [OF this, of sampleEnv "\<lparr>element = ''C'', position = (0, 0, 0)\<rparr>"
      "\<lparr>element = ''O'', position = (2, 0, 0)\<rparr>" "''V2000''"]
  let ?atoms = "replicate 65537 \<lparr>element = ''C'', position = (0 :: rat, 0 :: rat, 0 :: rat)\<rparr>"
  have n: "length ?atoms = 65537" by simp
  have N: "length ?atoms < 2 ^ 32" by simp
  have d: "- (1 / 2) < getOrder (unitBonds 65537) i j \<and>
           getOrder (unitBonds 65537) i j < 2 ^ 32 - 1 / 2" for i j
    by simp
  have w: "write_mol sampleEnv ?atoms (Some (unitBonds 65537)) ''V2000'' =
     Inr (headerLines sampleEnv @ countsLine 65537 32768 ''V2000'' @
          atomBlock sampleEnv ?atoms (writeValences 65537 (Some (unitBonds 65537))) @
          bondLinesOf (loopPairs 65537) 1 @ ''M END'')"
    unfolding write_mol_Some [OF N d] n bondCount_unitBonds bondLinesOf_def by simp
  from g a w length_loopPairs_65537 show ?thesis by simp
qed

section \<open>Properties of the reader\<close>

lemma takeWhile_line: "c \<notin> set l \<Longrightarrow> takeWhile (\<lambda>x. x \<noteq> c) (l @ c # rest) = l"
  by (induction l) auto

lemma dropWhile_line: "c \<notin> set l \<Longrightarrow> dropWhile (\<lambda>x. x \<noteq> c) (l @ c # rest) = c # rest"
  by (induction l) auto

lemma getline_line:
  "good inp \<Longrightarrow> buf inp = l @ newline # rest \<Longrightarrow> newline \<notin> set l \<Longrightarrow>
   getline inp line = (inp\<lparr>buf := rest\<rparr>, l)"
  by (simp add: getline_def takeWhile_line dropWhile_line)

lemma getline_last:
  "good inp \<Longrightarrow> newline \<notin> set (buf inp) \<Longrightarrow>
   getline inp line = (inp\<lparr>buf := [], eofbit := True, failbit := (buf inp = [])\<rparr>, buf inp)"
  by (simp add: getline_def)

lemma getline_not_good:
  "\<not> good inp \<Longrightarrow> getline inp line = (inp\<lparr>failbit := True\<rparr>, line)"
  by (simp add: getline_def)

lemma skipLine_line:
  "good inp \<Longrightarrow> buf inp = l @ newline # rest \<Longrightarrow> newline \<notin> set l \<Longrightarrow>
   skipLine inp = inp\<lparr>buf := rest\<rparr>"
  by (simp add: skipLine_def dropWhile_line)

lemma good_buf_update [simp]: "good (inp\<lparr>buf := b\<rparr>) = good inp"
  by (simp add: good_def)

lemma good_open_stream [simp]: "good (open_stream s)"
  by (simp add: good_def open_stream_def)

lemma buf_open_stream [simp]: "buf (open_stream s) = s"
  by (simp add: open_stream_def)

lemma countsLoop_not_good:
  "\<not> good inp \<Longrightarrow> countsLoop inp line a0 b0 = (inp\<lparr>failbit := True\<rparr>, line, a0, b0)"
  by (subst countsLoop.simps) (simp add: getline_not_good)

lemma countsLoop_accept:
  assumes "good inp" "buf inp = l @ newline # rest" "newline \<notin> set l"
    and "countsLineChecks l = Some (a, b)"
  shows "countsLoop inp line a0 b0 = (inp\<lparr>buf := rest\<rparr>, l, a, b)"
proof -
  have f: "\<not> failbit (inp\<lparr>buf := rest\<rparr>)" using assms(1) by (simp add: good_def)
  show ?thesis
    using assms(4) f
    by (subst countsLoop.simps)
       (auto simp: getline_line [OF assms(1-3)] countsLineChecks_def
             split: if_splits option.splits prod.splits)
qed

lemma countsLoop_skip:
  assumes "good inp" "buf inp = l @ newline # rest" "newline \<notin> set l"
    and "countsLineChecks l = None"
  shows "\<exists>a' b'. countsLoop inp line a0 b0 = countsLoop (inp\<lparr>buf := rest\<rparr>) l a' b'"
proof -
  have f: "\<not> failbit (inp\<lparr>buf := rest\<rparr>)" using assms(1) by (simp add: good_def)
  show ?thesis
    using assms(4) f
    by (subst countsLoop.simps)
       (auto simp: getline_line [OF assms(1-3)] countsLineChecks_def
             split: if_splits option.splits prod.splits)
qed

lemma countsLoop_eof:
  "eofbit inp \<Longrightarrow> eofbit (fst (countsLoop inp line a0 b0))"
  by (simp add: countsLoop_not_good good_def)

lemma countsLoop_last:
  assumes "good inp" "newline \<notin> set (buf inp)"
  shows "eofbit (fst (countsLoop inp line a0 b0))"
  by (subst countsLoop.simps)
     (auto simp: getline_last [OF assms] countsLoop_eof split: option.splits prod.splits)

lemma countsLoop_accept_after_skips:
  "good inp \<Longrightarrow>
   buf inp = concat (map (\<lambda>x. x @ [newline]) skipped) @ l @ newline # rest \<Longrightarrow>
   (\<forall>x \<in> set skipped. newline \<notin> set x \<and> countsLineChecks x = None) \<Longrightarrow>
   newline \<notin> set l \<Longrightarrow> countsLineChecks l = Some (a, b) \<Longrightarrow>
   countsLoop inp line a0 b0 = (inp\<lparr>buf := rest\<rparr>, l, a, b)"
proof (induction skipped arbitrary: inp line a0 b0)
  case Nil
  then show ?case by (simp add: countsLoop_accept)
next
  case (Cons x skipped)
  let ?rest' = "concat (map (\<lambda>x. x @ [newline]) skipped) @ l @ newline # rest"
  have b: "buf inp = x @ newline # ?rest'" using Cons.prems(2) by simp
  have x: "newline \<notin> set x" "countsLineChecks x = None" using Cons.prems(3) by simp_all
  obtain a' b' where
    s: "countsLoop inp line a0 b0 = countsLoop (inp\<lparr>buf := ?rest'\<rparr>) x a' b'"
    using countsLoop_skip [OF Cons.prems(1) b x] by blast
  have "countsLoop (inp\<lparr>buf := ?rest'\<rparr>) x a' b' = (inp\<lparr>buf := ?rest'\<rparr>\<lparr>buf := rest\<rparr>, l, a, b)"
    using Cons.prems by (intro Cons.IH) simp_all
  with s show ?case by simp
qed

lemma countsLoop_eof_after_skips:
  "good inp \<Longrightarrow>
   buf inp = concat (map (\<lambda>x. x @ [newline]) skipped) @ tail \<Longrightarrow>
   (\<forall>x \<in> set skipped. newline \<notin> set x \<and> countsLineChecks x = None) \<Longrightarrow>
   newline \<notin> set tail \<Longrightarrow>
   eofbit (fst (countsLoop inp line a0 b0))"
proof (induction skipped arbitrary: inp line a0 b0)
  case Nil
  then show ?case by (simp add: countsLoop_last)
next
  case (Cons x skipped)
  let ?rest' = "concat (map (\<lambda>x. x @ [newline]) skipped) @ tail"
  have b: "buf inp = x @ newline # ?rest'" using Cons.prems(2) by simp
  have x: "newline \<notin> set x" "countsLineChecks x = None" using Cons.prems(3) by simp_all
  obtain a' b' where
    s: "countsLoop inp line a0 b0 = countsLoop (inp\<lparr>buf := ?rest'\<rparr>) x a' b'"
    using countsLoop_skip [OF Cons.prems(1) b x] by blast
  have "eofbit (fst (countsLoop (inp\<lparr>buf := ?rest'\<rparr>) x a' b'))"
    using Cons.prems by (intro Cons.IH) simp_all
  with s show ?case by simp
qed


lemma scanCounts_accept:
  assumes "good inp"
    and "buf inp = concat (map (\<lambda>x. x @ [newline]) skipped) @ l @ newline # rest"
    and "\<forall>x \<in> set skipped. newline \<notin> set x \<and> countsLineChecks x = None"
    and "newline \<notin> set l" and "countsLineChecks l = Some (a, b)"
  shows "scanCounts inp = Inr (inp\<lparr>buf := rest\<rparr>, l, a, b)"
  using assms(1) unfolding scanCounts_def countsLoop_accept_after_skips [OF assms]
  by (simp add: good_def)

lemma scanCounts_eof:
  assumes "good inp"
    and "buf inp = concat (map (\<lambda>x. x @ [newline]) skipped) @ tail"
    and "\<forall>x \<in> set skipped. newline \<notin> set x \<and> countsLineChecks x = None"
    and "newline \<notin> set tail"
  shows "scanCounts inp = Inl FormatMismatchException"
  using countsLoop_eof_after_skips [OF assms, of "[]" 0 0] unfolding scanCounts_def
  by (cases "countsLoop inp [] 0 0") simp

lemma skipLine_open:
  "newline \<notin> set l \<Longrightarrow> skipLine (open_stream (l @ newline # rest)) = open_stream rest"
  by (simp add: skipLine_def open_stream_def good_def dropWhile_line)

lemma open_stream_buf_update [simp]: "(open_stream s)\<lparr>buf := rest\<rparr> = open_stream rest"
  by (simp add: open_stream_def)

lemma skip_headers:
  assumes "newline \<notin> set h1" "newline \<notin> set h2" "newline \<notin> set h3"
  shows "skipLine (skipLine (skipLine (open_stream (h1 @ newline # h2 @ newline # h3 @ newline # rest))))
         = open_stream rest"
  by (simp only: skipLine_open [OF assms(1)] skipLine_open [OF assms(2)] skipLine_open [OF assms(3)])

lemma countsLineChecks_length: "countsLineChecks l = Some ab \<Longrightarrow> 38 \<le> length l"
  by (simp add: countsLineChecks_def split: if_splits)

lemma read_after_scan:
  assumes "newline \<notin> set h1" "newline \<notin> set h2" "newline \<notin> set h3"
    and "\<forall>x \<in> set skipped. newline \<notin> set x \<and> countsLineChecks x = None"
    and "newline \<notin> set l" and "countsLineChecks l = Some (a, b)"
  shows "scanCounts (skipLine (skipLine (skipLine (open_stream
           (h1 @ newline # h2 @ newline # h3 @ newline #
            concat (map (\<lambda>x. x @ [newline]) skipped) @ l @ newline # rest))))) =
         Inr (open_stream rest, l, a, b)"
proof -
  have "scanCounts (open_stream (concat (map (\<lambda>x. x @ [newline]) skipped) @ l @ newline # rest)) =
        Inr ((open_stream (concat (map (\<lambda>x. x @ [newline]) skipped) @ l @ newline # rest))
               \<lparr>buf := rest\<rparr>, l, a, b)"
    by (rule scanCounts_accept [OF _ _ assms(4-6)]) simp_all
  then show ?thesis
    by (simp only: skip_headers [OF assms(1-3)] open_stream_buf_update)
qed

text \<open>
  Claim C2, amended.  When the first line that passes the checks of the scan ends with a
  newline and carries the tag \<^verbatim>\<open>V3000\<close> behind column 33, blanks removed, the reader
  fails with the \<^verbatim>\<open>std::logic_error\<close> of the unsupported version, an error different
  from the codec's other two, whatever follows the counts line.
\<close>

theorem v3000_rejected:
  assumes "newline \<notin> set h1" "newline \<notin> set h2" "newline \<notin> set h3"
    and "\<forall>x \<in> set skipped. newline \<notin> set x \<and> countsLineChecks x = None"
    and "newline \<notin> set l" and "countsLineChecks l = Some (a, b)"
    and "removeAllSpaces (drop 33 l) = ''V3000''"
  shows "read env (open_stream
           (h1 @ newline # h2 @ newline # h3 @ newline #
            concat (map (\<lambda>x. x @ [newline]) skipped) @ l @ newline # rest)) =
         Inl (LogicError ''V3000 MOL Format not implemented!'')
       \<and> LogicError ''V3000 MOL Format not implemented!'' \<noteq> FormatMismatchException
       \<and> LogicError ''V3000 MOL Format not implemented!'' \<noteq> FormatUnsupportedException"
proof -
  have "\<not> length l < 33" using countsLineChecks_length [OF assms(6)] by simp
  then show ?thesis
    by (simp add: read_def readBlocks_def read_after_scan [OF assms(1-6)] assms(7))
qed

lemmas eval_defs = countsLineChecks_def parseBondLine_def parseAtomLine_def stoul_def substr_def
  isspace_def isdigit_def digits_value_def Let_def stod_double_def parsed_value_def
  exponent_part_def scale_def isxdigit_def xdigit_value_def xdigits_value_def
  round_to_double_def double_times_def sampleEnv_def capitalize_def
  removeAllSpaces_def toupper_def tolower_def newline_def

lemma read_scan_eof:
  assumes "newline \<notin> set h1" "newline \<notin> set h2" "newline \<notin> set h3"
    and "\<forall>x \<in> set skipped. newline \<notin> set x \<and> countsLineChecks x = None"
    and "newline \<notin> set tail"
  shows "read env (open_stream
           (h1 @ newline # h2 @ newline # h3 @ newline #
            concat (map (\<lambda>x. x @ [newline]) skipped) @ tail)) = Inl FormatMismatchException"
proof -
  have "scanCounts (open_stream (concat (map (\<lambda>x. x @ [newline]) skipped) @ tail)) =
        Inl FormatMismatchException"
    by (rule scanCounts_eof [OF _ _ assms(4,5)]) simp_all
  then show ?thesis
    by (simp add: read_def skip_headers [OF assms(1-3)])
qed

lemma atomLoop_lines:
  "good inp \<Longrightarrow> buf inp = concat (map (\<lambda>x. x @ [newline]) ls) @ rest \<Longrightarrow>
   \<forall>x \<in> set ls. newline \<notin> set x \<Longrightarrow>
   list_all2 (\<lambda>l a. parseAtomLine env l = Inr a) ls as \<Longrightarrow>
   i + length ls \<le> length atoms \<Longrightarrow>
   atomLoop env (length ls) i inp line atoms =
     Inr (inp\<lparr>buf := rest\<rparr>, last (line # ls), take i atoms @ as @ drop (i + length ls) atoms)"
proof (induction ls arbitrary: inp line atoms i as)
  case Nil
  then show ?case by simp
next
  case (Cons l ls)
  from Cons.prems(4) obtain a as' where as: "as = a # as'" "parseAtomLine env l = Inr a"
    "list_all2 (\<lambda>l a. parseAtomLine env l = Inr a) ls as'"
    by (auto simp: list_all2_Cons1)
  let ?rest' = "concat (map (\<lambda>x. x @ [newline]) ls) @ rest"
  have g: "getline inp line = (inp\<lparr>buf := ?rest'\<rparr>, l)"
    using Cons.prems(1,2,3) by (intro getline_line) simp_all
  have i: "i < length atoms" using Cons.prems(5) by simp
  have ih: "atomLoop env (length ls) (i + 1) (inp\<lparr>buf := ?rest'\<rparr>) l (atoms[i := a]) =
     Inr (inp\<lparr>buf := ?rest'\<rparr>\<lparr>buf := rest\<rparr>, last (l # ls),
          take (i + 1) (atoms[i := a]) @ as' @ drop (i + 1 + length ls) (atoms[i := a]))"
    using Cons.prems as(3) by (intro Cons.IH) simp_all
  have t: "take (Suc i) (atoms[i := a]) = take i atoms @ [a]"
    using i by (simp add: take_Suc_conv_app_nth)
  show ?case
    using ih by (simp add: g as(1,2) t)
qed

lemma atomLoop_error:
  "good inp \<Longrightarrow> buf inp = concat (map (\<lambda>x. x @ [newline]) ls) @ bad @ newline # rest \<Longrightarrow>
   \<forall>x \<in> set ls. newline \<notin> set x \<Longrightarrow> newline \<notin> set bad \<Longrightarrow>
   list_all2 (\<lambda>l a. parseAtomLine env l = Inr a) ls as \<Longrightarrow>
   parseAtomLine env bad = Inl e \<Longrightarrow>
   atomLoop env (length ls + Suc n) i inp line atoms = Inl e"
proof (induction ls arbitrary: inp line atoms i as)
  case Nil
  have g: "getline inp line = (inp\<lparr>buf := rest\<rparr>, bad)"
    using Nil.prems by (intro getline_line) simp_all
  show ?case using Nil.prems(6) by (simp add: g)
next
  case (Cons l ls)
  from Cons.prems(5) obtain a as' where as: "as = a # as'" "parseAtomLine env l = Inr a"
    "list_all2 (\<lambda>l a. parseAtomLine env l = Inr a) ls as'"
    by (auto simp: list_all2_Cons1)
  let ?rest' = "concat (map (\<lambda>x. x @ [newline]) ls) @ bad @ newline # rest"
  have g: "getline inp line = (inp\<lparr>buf := ?rest'\<rparr>, l)"
    using Cons.prems(1,2,3) by (intro getline_line) simp_all
  have ih: "atomLoop env (length ls + Suc n) (i + 1) (inp\<lparr>buf := ?rest'\<rparr>) l (atoms[i := a]) = Inl e"
    using Cons.prems as(3) by (intro Cons.IH) simp_all
  show ?case
    using ih by (simp add: g as(1,2))
qed

lemma recordBond_triple [simp]:
  "recordBond env bo (a, b, s) =
     (if 0 < s \<and> s < 4 then setOrder env bo (unat a) (unat b) (of_nat (unat s)) else Inr bo)"
  by (simp add: recordBond_def)

lemma bondLoop_lines:
  "good inp \<Longrightarrow> buf inp = concat (map (\<lambda>x. x @ [newline]) ls) @ rest \<Longrightarrow>
   \<forall>x \<in> set ls. newline \<notin> set x \<Longrightarrow>
   list_all2 (\<lambda>l t. parseBondLine l = Inr t) ls ts \<Longrightarrow>
   bondLoop env (length ls) inp line bo =
     (case recordBonds env bo ts of
        Inl e \<Rightarrow> Inl e
      | Inr bo' \<Rightarrow> Inr (inp\<lparr>buf := rest\<rparr>, last (line # ls), bo'))"
proof (induction ls arbitrary: inp line bo ts)
  case Nil
  then show ?case by simp
next
  case (Cons l ls)
  from Cons.prems(4) obtain t ts' where ts: "ts = t # ts'" "parseBondLine l = Inr t"
    "list_all2 (\<lambda>l t. parseBondLine l = Inr t) ls ts'"
    by (auto simp: list_all2_Cons1)
  let ?rest' = "concat (map (\<lambda>x. x @ [newline]) ls) @ rest"
  have g: "getline inp line = (inp\<lparr>buf := ?rest'\<rparr>, l)"
    using Cons.prems(1,2,3) by (intro getline_line) simp_all
  show ?case
  proof (cases "recordBond env bo t")
    case (Inl e)
    then show ?thesis by (simp add: g ts(1,2))
  next
    case (Inr bo')
    have ih: "bondLoop env (length ls) (inp\<lparr>buf := ?rest'\<rparr>) l bo' =
       (case recordBonds env bo' ts' of
          Inl e \<Rightarrow> Inl e
        | Inr bo'' \<Rightarrow> Inr (inp\<lparr>buf := ?rest'\<rparr>\<lparr>buf := rest\<rparr>, last (l # ls), bo''))"
      using Cons.prems ts(3) by (intro Cons.IH) simp_all
    show ?thesis
      using ih by (simp add: g ts(1,2) Inr split: sum.splits)
  qed
qed

lemma read_V2000:
  assumes "newline \<notin> set h1" "newline \<notin> set h2" "newline \<notin> set h3"
    and "\<forall>x \<in> set skipped. newline \<notin> set x \<and> countsLineChecks x = None"
    and "newline \<notin> set l" and "countsLineChecks l = Some (a, b)"
    and "removeAllSpaces (drop 33 l) = ''V2000''"
  shows "read env (open_stream
           (h1 @ newline # h2 @ newline # h3 @ newline #
            concat (map (\<lambda>x. x @ [newline]) skipped) @ l @ newline # rest)) =
         (case atomLoop env (unat a) 0 (open_stream rest) l
                 (replicate (unat a) \<lparr>element = noneElement env, position = (0, 0, 0)\<rparr>) of
            Inl e \<Rightarrow> Inl e
          | Inr (inp1, line1, atoms) \<Rightarrow>
              (case (if 0 < b
                     then bondLoop env (unat b) inp1 line1 (resize emptyBondOrders (unat a))
                     else Inr (inp1, line1, emptyBondOrders)) of
                 Inl e \<Rightarrow> Inl e
               | Inr (inp2, line2, bondOrders) \<Rightarrow> Inr (atoms, bondOrders)))"
proof -
  have "\<not> length l < 33" using countsLineChecks_length [OF assms(6)] by simp
  then show ?thesis
    by (simp add: read_def readBlocks_def read_after_scan [OF assms(1-6)] assms(7))
qed

lemma parseAtomLine_unresolved:
  assumes "capitalize (removeAllSpaces (substr line 31 3)) = Some elementStr"
    and "elementTypeForSymbol env elementStr = None"
  shows "parseAtomLine env line = Inl FormatMismatchException"
  using assms by (simp add: parseAtomLine_def split: option.splits)

lemma read_atom_line_error:
  assumes "newline \<notin> set h1" "newline \<notin> set h2" "newline \<notin> set h3"
    and "\<forall>x \<in> set skipped. newline \<notin> set x \<and> countsLineChecks x = None"
    and "newline \<notin> set l" and "countsLineChecks l = Some (a, b)"
    and "removeAllSpaces (drop 33 l) = ''V2000''"
    and "\<forall>x \<in> set ls. newline \<notin> set x" and "newline \<notin> set bad"
    and "list_all2 (\<lambda>l a. parseAtomLine env l = Inr a) ls as"
    and "length ls < unat a"
    and "parseAtomLine env bad = Inl e"
  shows "read env (open_stream
           (h1 @ newline # h2 @ newline # h3 @ newline #
            concat (map (\<lambda>x. x @ [newline]) skipped) @ l @ newline #
            concat (map (\<lambda>x. x @ [newline]) ls) @ bad @ newline # rest)) =
         Inl e"
proof -
  obtain n where n: "unat a = length ls + Suc n"
    using assms(11) by (metis less_imp_Suc_add add_Suc_right)
  have "atomLoop env (length ls + Suc n) 0
          (open_stream (concat (map (\<lambda>x. x @ [newline]) ls) @ bad @ newline # rest)) l
          (replicate (unat a) \<lparr>element = noneElement env, position = (0, 0, 0)\<rparr>) =
        Inl e"
    by (rule atomLoop_error [OF _ _ assms(8,9,10,12)]) simp_all
  then show ?thesis
    by (simp add: read_V2000 [OF assms(1-7)] n)
qed

lemma unresolved_symbol_aborts:
  assumes "newline \<notin> set h1" "newline \<notin> set h2" "newline \<notin> set h3"
    and "\<forall>x \<in> set skipped. newline \<notin> set x \<and> countsLineChecks x = None"
    and "newline \<notin> set l" and "countsLineChecks l = Some (a, b)"
    and "removeAllSpaces (drop 33 l) = ''V2000''"
    and "\<forall>x \<in> set ls. newline \<notin> set x" and "newline \<notin> set bad"
    and "list_all2 (\<lambda>l a. parseAtomLine env l = Inr a) ls as"
    and "length ls < unat a"
    and "capitalize (removeAllSpaces (substr bad 31 3)) = Some elementStr"
    and "elementTypeForSymbol env elementStr = None"
  shows "read env (open_stream
           (h1 @ newline # h2 @ newline # h3 @ newline #
            concat (map (\<lambda>x. x @ [newline]) skipped) @ l @ newline #
            concat (map (\<lambda>x. x @ [newline]) ls) @ bad @ newline # rest)) =
         Inl FormatMismatchException"
  by (rule read_atom_line_error [OF assms(1-11) parseAtomLine_unresolved [OF assms(12,13)]])

lemma read_lines:
  assumes "newline \<notin> set h1" "newline \<notin> set h2" "newline \<notin> set h3"
    and "\<forall>x \<in> set skipped. newline \<notin> set x \<and> countsLineChecks x = None"
    and "newline \<notin> set l" and "countsLineChecks l = Some (a, b)"
    and "removeAllSpaces (drop 33 l) \<noteq> ''V3000''"
    and "\<forall>x \<in> set als. newline \<notin> set x"
    and "if removeAllSpaces (drop 33 l) = ''V2000''
         then list_all2 (\<lambda>l a. parseAtomLine env l = Inr a) als as \<and> length als = unat a
         else als = [] \<and> as = replicate (unat a) \<lparr>element = noneElement env, position = (0, 0, 0)\<rparr>"
    and "\<forall>x \<in> set bls. newline \<notin> set x"
    and "list_all2 (\<lambda>l t. parseBondLine l = Inr t) bls ts" and "length bls = unat b"
  shows "read env (open_stream
           (h1 @ newline # h2 @ newline # h3 @ newline #
            concat (map (\<lambda>x. x @ [newline]) skipped) @ l @ newline #
            concat (map (\<lambda>x. x @ [newline]) als) @
            concat (map (\<lambda>x. x @ [newline]) bls) @ rest)) =
         (case (if 0 < b then recordBonds env (resize emptyBondOrders (unat a)) ts
                else Inr emptyBondOrders) of
            Inl e \<Rightarrow> Inl e
          | Inr bondOrders \<Rightarrow> Inr (as, bondOrders))"
proof -
  let ?atoms0 = "replicate (unat a) \<lparr>element = noneElement env, position = (0, 0, 0)\<rparr>"
  let ?r1 = "concat (map (\<lambda>x. x @ [newline]) bls) @ rest"
  let ?r0 = "concat (map (\<lambda>x. x @ [newline]) als) @ ?r1"
  have l33: "\<not> length l < 33" using countsLineChecks_length [OF assms(6)] by simp
  have sc: "scanCounts (skipLine (skipLine (skipLine (open_stream
           (h1 @ newline # h2 @ newline # h3 @ newline #
            concat (map (\<lambda>x. x @ [newline]) skipped) @ l @ newline # ?r0))))) =
         Inr (open_stream ?r0, l, a, b)"
    by (rule read_after_scan [OF assms(1-6)])
  have at: "(if removeAllSpaces (drop 33 l) = ''V2000''
             then atomLoop env (unat a) 0 (open_stream ?r0) l ?atoms0
             else Inr (open_stream ?r0, l, ?atoms0)) =
            Inr (open_stream ?r1, last (l # als), as)"
  proof (cases "removeAllSpaces (drop 33 l) = ''V2000''")
    case True
    with assms(9) have p: "list_all2 (\<lambda>l a. parseAtomLine env l = Inr a) als as"
      and n: "length als = unat a" by simp_all
    have "length as = unat a" using p n by (simp add: list_all2_lengthD [symmetric])
    moreover have "atomLoop env (length als) 0 (open_stream ?r0) l ?atoms0 =
        Inr ((open_stream ?r0)\<lparr>buf := ?r1\<rparr>, last (l # als),
             take 0 ?atoms0 @ as @ drop (0 + length als) ?atoms0)"
      by (rule atomLoop_lines [OF _ _ assms(8) p]) (simp_all add: n)
    ultimately show ?thesis using True by (simp add: n)
  next
    case False
    with assms(9) show ?thesis by simp
  qed
  have bl: "bondLoop env (unat b) (open_stream ?r1) (last (l # als))
              (resize emptyBondOrders (unat a)) =
        (case recordBonds env (resize emptyBondOrders (unat a)) ts of
           Inl e \<Rightarrow> Inl e
         | Inr bo' \<Rightarrow> Inr (open_stream rest, last (last (l # als) # bls), bo'))"
    using bondLoop_lines [OF _ _ assms(10,11), of "open_stream ?r1" rest env "last (l # als)"
        "resize emptyBondOrders (unat a)"]
    by (simp add: assms(12) split: sum.splits)
  have "read env (open_stream
           (h1 @ newline # h2 @ newline # h3 @ newline #
            concat (map (\<lambda>x. x @ [newline]) skipped) @ l @ newline # ?r0)) =
        (case (if 0 < b
               then bondLoop env (unat b) (open_stream ?r1) (last (l # als))
                      (resize emptyBondOrders (unat a))
               else Inr (open_stream ?r1, last (l # als), emptyBondOrders)) of
           Inl e \<Rightarrow> Inl e
         | Inr (inp2, line2, bondOrders) \<Rightarrow> Inr (as, bondOrders))"
    unfolding read_def sc readBlocks_def
    by (simp only: sum.case prod.case Let_def l33 if_False assms(7) at)
  then show ?thesis
    by (cases "0 < b"; cases "recordBonds env (resize emptyBondOrders (unat a)) ts")
       (simp_all only: bl if_True if_False sum.case prod.case)
qed

lemma header_newlines:
  "newline \<notin> set ''Name''" "newline \<notin> set ''##   SCINE12241912303D''" "newline \<notin> set ''''"
  by (simp_all add: newline_def)

lemma no_skipped: "\<forall>x \<in> set []. newline \<notin> set x \<and> countsLineChecks x = None"
  by simp

theorem v3000_rejected_witness:
  "read sampleEnv (open_stream
     (''Name'' @ newline # ''##   SCINE12241912303D'' @ newline # '''' @ newline #
      ''  0  0  0  0  0  0  0  0  0  0999 V3000'' @ newline # ''M  V30 BEGIN CTAB'')) =
   Inl (LogicError ''V3000 MOL Format not implemented!'')"
proof -
  let ?l = "''  0  0  0  0  0  0  0  0  0  0999 V3000''"
  have c: "countsLineChecks ?l = Some (0, 0)" "removeAllSpaces (drop 33 ?l) = ''V3000''"
    by (simp_all add: eval_defs)
  have n: "newline \<notin> set ?l" by (simp add: newline_def)
  from v3000_rejected [OF header_newlines no_skipped n c, of sampleEnv "''M  V30 BEGIN CTAB''"]
  show ?thesis by simp
qed

text \<open>
  Claim C2 as stated fails: a counts line with the tag \<^verbatim>\<open>V3000\<close> that ends the stream
  without a newline passes the checks, but reading it sets the end-of-file flag, and the
  reader fails with \<^verbatim>\<open>FormatMismatchException\<close> before it looks at the tag.
\<close>

theorem v3000_unterminated_counterexample:
  "countsLineChecks ''  0  0  0  0  0  0  0  0  0  0999 V3000'' = Some (0, 0)
   \<and> removeAllSpaces (drop 33 ''  0  0  0  0  0  0  0  0  0  0999 V3000'') = ''V3000''
   \<and> read sampleEnv (open_stream
       (''Name'' @ newline # ''##   SCINE12241912303D'' @ newline # '''' @ newline #
        ''  0  0  0  0  0  0  0  0  0  0999 V3000'')) =
     Inl FormatMismatchException"
proof -
  let ?l = "''  0  0  0  0  0  0  0  0  0  0999 V3000''"
  have c: "countsLineChecks ?l = Some (0, 0)" "removeAllSpaces (drop 33 ?l) = ''V3000''"
    by (simp_all add: eval_defs)
  have n: "newline \<notin> set ?l" by (simp add: newline_def)
  from read_scan_eof [OF header_newlines no_skipped n, of sampleEnv]
  have "read sampleEnv (open_stream
       (''Name'' @ newline # ''##   SCINE12241912303D'' @ newline # '''' @ newline # ?l)) =
     Inl FormatMismatchException" by simp
  with c show ?thesis by (intro conjI)
qed

text \<open>
  Claim C8.  A symbol that does not resolve gives \<^verbatim>\<open>FormatMismatchException\<close> and ends
  the parse (\<open>unresolved_symbol_aborts\<close>), as long as the symbol field holds a character
  that is not a blank.  On a blank symbol field the string is empty when the two
  \<^verbatim>\<open>std::transform\<close> calls run, and the second is given a range that starts behind its
  end: the behaviour is undefined before the resolver is asked.
\<close>

theorem blank_symbol_undefined:
  "read sampleEnv (open_stream
     (''Name'' @ newline # ''##   SCINE12241912303D'' @ newline # '''' @ newline #
      ''  1  0  0  0  0  0  0  0  0  0999 V2000'' @ newline #
      ''    0.0000    0.0000    0.0000     0  0  0  0  0  0  0  0  0  0  0  0'' @ newline #
      ''M END'')) =
   Inl UndefinedBehaviour"
proof -
  let ?l = "''  1  0  0  0  0  0  0  0  0  0999 V2000''"
  let ?a = "''    0.0000    0.0000    0.0000     0  0  0  0  0  0  0  0  0  0  0  0''"
  have c: "countsLineChecks ?l = Some (1, 0)" "removeAllSpaces (drop 33 ?l) = ''V2000''"
    by (simp_all add: eval_defs)
  have n: "newline \<notin> set ?l" "newline \<notin> set ?a" by (simp_all add: newline_def)
  have na: "\<forall>x \<in> set ([] :: string list). newline \<notin> set x" by simp
  have p: "parseAtomLine sampleEnv ?a = Inl UndefinedBehaviour" by (simp add: eval_defs)
  have l0: "list_all2 (\<lambda>l a. parseAtomLine sampleEnv l = Inr a) [] []" by simp
  have k: "length ([] :: string list) < unat (1 :: 32 word)" by simp
  from read_atom_line_error [OF header_newlines no_skipped n(1) c na n(2) l0 k p, of "''M END''"]
  show ?thesis by simp
qed














text \<open>
  Claim C3, amended.  When the counts line carries a tag that is neither \<^verbatim>\<open>V2000\<close> nor
  \<^verbatim>\<open>V3000\<close>, the atom block is not parsed, whatever the declared counts: the atoms
  are the declared number of default atoms.  With a declared bond count of 0 the reader
  returns them with no bond order recorded; with a positive bond count it reads the bond
  block from the lines that follow the counts line directly.
\<close>

theorem unknown_version_no_atom_block:
  assumes "newline \<notin> set h1" "newline \<notin> set h2" "newline \<notin> set h3"
    and "\<forall>x \<in> set skipped. newline \<notin> set x \<and> countsLineChecks x = None"
    and "newline \<notin> set l" and "countsLineChecks l = Some (a, b)"
    and "removeAllSpaces (drop 33 l) \<noteq> ''V2000''"
    and "removeAllSpaces (drop 33 l) \<noteq> ''V3000''"
  shows "read env (open_stream
            (h1 @ newline # h2 @ newline # h3 @ newline #
             concat (map (\<lambda>x. x @ [newline]) skipped) @ l @ newline # rest)) =
         (if b = 0
          then Inr (replicate (unat a) \<lparr>element = noneElement env, position = (0, 0, 0)\<rparr>,
                    emptyBondOrders)
          else case bondLoop env (unat b) (open_stream rest) l (resize emptyBondOrders (unat a)) of
                 Inl e \<Rightarrow> Inl e
               | Inr (inp2, line2, bondOrders) \<Rightarrow>
                   Inr (replicate (unat a) \<lparr>element = noneElement env, position = (0, 0, 0)\<rparr>,
                        bondOrders))"
proof -
  have "\<not> length l < 33" using countsLineChecks_length [OF assms(6)] by simp
  then show ?thesis
    by (simp add: read_def readBlocks_def read_after_scan [OF assms(1-6)] assms(7,8) Let_def
        word_gt_0)
qed

theorem unknown_version_no_atom_block_witness:
  "read sampleEnv (open_stream
     (''Name'' @ newline # ''##   SCINE12241912303D'' @ newline # '''' @ newline #
      ''  2  0  0  0  0  0  0  0  0  0999 V2001'' @ newline #
      ''    0.0000    0.0000    0.0000   C 0  0  0  0  0  0  0  0  0  0  0  0'' @ newline #
      ''M END'')) =
   Inr (replicate 2 \<lparr>element = ''none'', position = (0, 0, 0)\<rparr>, emptyBondOrders)"
proof -
  let ?l = "''  2  0  0  0  0  0  0  0  0  0999 V2001''"
  have c: "countsLineChecks ?l = Some (2, 0)" "removeAllSpaces (drop 33 ?l) \<noteq> ''V2000''"
    "removeAllSpaces (drop 33 ?l) \<noteq> ''V3000''"
    by (simp_all add: eval_defs)
  have n: "newline \<notin> set ?l" by (simp add: newline_def)
  have e: "noneElement sampleEnv = ''none''" by (simp add: sampleEnv_def)
  from unknown_version_no_atom_block [OF header_newlines no_skipped n c, of sampleEnv
      "''    0.0000    0.0000    0.0000   C 0  0  0  0  0  0  0  0  0  0  0  0'' @ newline # ''M END''"]
  show ?thesis by (simp add: e)
qed

lemma setOrderInDomain_ok:
  "i \<noteq> j \<Longrightarrow> i < systemSize bo \<Longrightarrow> j < systemSize bo \<Longrightarrow>
   setOrder sampleEnv bo i j v = Inr (withOrder bo i j v)"
  by (simp add: sampleEnv_def setOrderInDomain_def)

text \<open>
  Claim C3 as stated fails: the bond block is read whenever the declared bond count is
  positive, whatever the tag.
\<close>

theorem unknown_version_bond_block_counterexample:
  "removeAllSpaces (drop 33 ''  2  1  0  0  0  0  0  0  0  0999 V2001'') = ''V2001''
   \<and> read sampleEnv (open_stream
     (''Name'' @ newline # ''##   SCINE12241912303D'' @ newline # '''' @ newline #
      ''  2  1  0  0  0  0  0  0  0  0999 V2001'' @ newline #
      ''  1  2  2  0  0  0  0'' @ newline # ''M END'')) =
   Inr (replicate 2 \<lparr>element = ''none'', position = (0, 0, 0)\<rparr>,
        withOrder (resize emptyBondOrders 2) 0 1 2)
   \<and> getOrder (withOrder (resize emptyBondOrders 2) 0 1 2) 0 1 = 2"
proof -
  let ?l = "''  2  1  0  0  0  0  0  0  0  0999 V2001''"
  let ?b = "''  1  2  2  0  0  0  0''"
  have c: "countsLineChecks ?l = Some (2, 1)" by (simp add: eval_defs)
  have v: "removeAllSpaces (drop 33 ?l) = ''V2001''" by (simp add: eval_defs)
  have v3: "removeAllSpaces (drop 33 ?l) \<noteq> ''V3000''" by (simp add: eval_defs)
  have n: "newline \<notin> set ?l" by (simp add: newline_def)
  have e: "noneElement sampleEnv = ''none''" by (simp add: sampleEnv_def)
  have na: "\<forall>x \<in> set ([] :: string list). newline \<notin> set x" by simp
  have nb: "\<forall>x \<in> set [?b]. newline \<notin> set x" by (simp add: newline_def)
  have pa: "if removeAllSpaces (drop 33 ?l) = ''V2000''
         then list_all2 (\<lambda>l a. parseAtomLine sampleEnv l = Inr a) []
                (replicate 2 \<lparr>element = ''none'', position = (0, 0, 0)\<rparr>)
              \<and> length ([] :: string list) = unat (2 :: 32 word)
         else [] = ([] :: string list) \<and>
              replicate 2 \<lparr>element = ''none'', position = (0, 0, 0)\<rparr> =
              replicate (unat (2 :: 32 word)) \<lparr>element = noneElement sampleEnv, position = (0, 0, 0)\<rparr>"
    by (simp only: v) (simp add: e)
  have pb: "list_all2 (\<lambda>l t. parseBondLine l = Inr t) [?b] [(0, 1, 2)]" by (simp add: eval_defs)
  have lb: "length [?b] = unat (1 :: 32 word)" by simp
  have f: "(if 0 < (1 :: 32 word)
            then recordBonds sampleEnv (resize emptyBondOrders (unat (2 :: 32 word))) [(0, 1, 2)]
            else Inr emptyBondOrders) = Inr (withOrder (resize emptyBondOrders 2) 0 1 2)"
    by (simp add: setOrderInDomain_ok resize_def)
  have g: "getOrder (withOrder (resize emptyBondOrders 2) 0 1 2) 0 1 = 2"
    by (simp add: getOrder_def withOrder_def)
  from read_lines [OF header_newlines no_skipped n c v3 na pa nb pb lb, of "''M END''"]
  have "read sampleEnv (open_stream
     (''Name'' @ newline # ''##   SCINE12241912303D'' @ newline # '''' @ newline #
      ?l @ newline # ?b @ newline # ''M END'')) =
   Inr (replicate 2 \<lparr>element = ''none'', position = (0, 0, 0)\<rparr>,
        withOrder (resize emptyBondOrders 2) 0 1 2)"
    unfolding f by simp
  with v g show ?thesis by (intro conjI)
qed

lemma parseAtomLine_setOrder_update [simp]:
  "parseAtomLine (env\<lparr>setOrder := so\<rparr>) l = parseAtomLine env l"
  by (simp add: parseAtomLine_def split: option.splits prod.splits)



end
